theory Spec2Isabelle
  imports Complex_Main "HOL-Library.Word"
begin

section \<open>Data model\<close>

text \<open>
  The grid, box and raster classes live in headers of the exactextract library
  (\<^verbatim>\<open>grid.h\<close>, \<^verbatim>\<open>box.h\<close>, \<^verbatim>\<open>raster.h\<close>) that
  \<^verbatim>\<open>exact_extract.cpp\<close> only includes. Their data is modelled as records; C++
  \<^verbatim>\<open>double\<close> coordinates and cell values are read as real numbers, which is exact for
  the comparisons and copies that \<^verbatim>\<open>exact_extract.cpp\<close> itself performs on them.
\<close>

record box =
  xmin :: real
  ymin :: real
  xmax :: real
  ymax :: real

record grid =
  extent :: box
  dx :: real
  dy :: real

text \<open>A raster: a grid and its cell values in row-major order (\<^verbatim>\<open>as_vector\<close>, \<^verbatim>\<open>vec()\<close>).\<close>

record raster =
  rgrid :: grid
  rvalues :: "real list"

text \<open>
  An R raster object together with what \<^verbatim>\<open>get_nlayers\<close>, \<^verbatim>\<open>make_grid\<close>,
  \<^verbatim>\<open>S4RasterSource::read_box\<close> (with the default value given to the constructor),
  \<^verbatim>\<open>get_x_values\<close>, \<^verbatim>\<open>get_y_values\<close> and \<^verbatim>\<open>get_cell_numbers\<close>
  answer for it. The number of layers of a raster is a natural number; the source holds
  it in an \<^verbatim>\<open>int\<close>.
\<close>

record s4_raster =
  get_nlayers :: nat
  make_grid :: grid
  read_box :: "real \<Rightarrow> box \<Rightarrow> nat \<Rightarrow> raster"
  get_x_values :: "grid \<Rightarrow> real list"
  get_y_values :: "grid \<Rightarrow> real list"
  get_cell_numbers :: "grid \<Rightarrow> real list"

text \<open>
  The collaborators that \<^verbatim>\<open>exact_extract.cpp\<close> calls and does not define. A call that
  throws in the collaborator is the value \<open>None\<close>.
\<close>

record 'geom collaborators =
  read_wkb :: "8 word list \<Rightarrow> 'geom option"
  geos_get_box :: "'geom \<Rightarrow> box"
  common_grid :: "grid \<Rightarrow> grid \<Rightarrow> grid"
  intersects :: "box \<Rightarrow> box \<Rightarrow> bool"
  crop :: "grid \<Rightarrow> box \<Rightarrow> grid"
  subdivide :: "grid \<Rightarrow> nat \<Rightarrow> grid list"
  raster_cell_intersection :: "grid \<Rightarrow> 'geom \<Rightarrow> raster option"
  grid_empty :: "grid \<Rightarrow> bool"
  requires_stored_values :: "string \<Rightarrow> bool"
  raster_view :: "raster \<Rightarrow> grid \<Rightarrow> real list"

text \<open>
  A cell of an R numeric matrix: a number or the missing value \<^verbatim>\<open>NA_REAL\<close>.
\<close>

datatype dbl = NA_REAL | Dbl real

text \<open>
  The interface of \<^verbatim>\<open>RasterStats<double>\<close> (\<^verbatim>\<open>raster_stats.h\<close>, not part of
  \<^verbatim>\<open>exact_extract.cpp\<close>): the constructor, the two overloads of
  \<^verbatim>\<open>process\<close>, and the readers. The readers that \<^verbatim>\<open>CPP_stats\<close> passes through
  \<^verbatim>\<open>value_or(NA_REAL)\<close> return an optional number.
\<close>

record 'acc raster_stats =
  rs_new :: "bool \<Rightarrow> 'acc"
  rs_process :: "'acc \<Rightarrow> raster \<Rightarrow> raster \<Rightarrow> 'acc"
  rs_process_weighted :: "'acc \<Rightarrow> raster \<Rightarrow> raster \<Rightarrow> raster \<Rightarrow> 'acc"
  rs_mean :: "'acc \<Rightarrow> dbl"
  rs_sum :: "'acc \<Rightarrow> dbl"
  rs_count :: "'acc \<Rightarrow> dbl"
  rs_min :: "'acc \<Rightarrow> real option"
  rs_max :: "'acc \<Rightarrow> real option"
  rs_quantile :: "'acc \<Rightarrow> real \<Rightarrow> real option"
  rs_mode :: "'acc \<Rightarrow> real option"
  rs_minority :: "'acc \<Rightarrow> real option"
  rs_variety :: "'acc \<Rightarrow> dbl"
  rs_weighted_mean :: "'acc \<Rightarrow> dbl"
  rs_weighted_sum :: "'acc \<Rightarrow> dbl"
  rs_variance :: "'acc \<Rightarrow> dbl"
  rs_stdev :: "'acc \<Rightarrow> dbl"
  rs_coefficient_of_variation :: "'acc \<Rightarrow> dbl"

text \<open>
  Every \<^verbatim>\<open>Rcpp::stop\<close> of \<^verbatim>\<open>exact_extract.cpp\<close>, and the failures of the
  collaborators, which \<^verbatim>\<open>CPP_stats\<close> catches and raises again.
\<close>

datatype error =
    InvalidMaxCells int
  | IncompatibleLayers
  | CannotComputeCountSum
  | QuantilesNotSpecified
  | UnknownStat string
  | GeometryError
  | CoverageError
  | SubsetSizeMismatch
  | IndexOutOfBounds
  | NotCompatible

text \<open>The calls made to the coverage computation, the raster sources and the accumulators.\<close>

datatype event =
    Coverage grid
  | ReadValues box nat
  | ReadWeights box nat
  | Process nat

record matrix =
  nrow :: nat
  ncol :: nat
  cells :: "dbl list list"

section \<open>The statistics matrix: \<^verbatim>\<open>CPP_stats\<close>\<close>

text \<open>Lines 226-252: the loop over the requested statistics before any window is read.\<close>

fun validate_stats ::
  "(string \<Rightarrow> bool) \<Rightarrow> bool \<Rightarrow> real list option \<Rightarrow> string list \<Rightarrow> bool \<times> nat
     \<Rightarrow> error + bool \<times> nat" where
  "validate_stats rsv disaggregated quantiles [] (store_values, stat_result_size) =
     Inr (store_values, stat_result_size)"
| "validate_stats rsv disaggregated quantiles (stat # stats) (store_values, stat_result_size) =
     (let store_values' = (store_values \<or> rsv stat) in
      if disaggregated \<and> (stat = ''count'' \<or> stat = ''sum'') then Inl CannotComputeCountSum
      else if stat = ''quantile'' then
        (let num_quantiles = (case quantiles of None \<Rightarrow> 0 | Some qvec \<Rightarrow> length qvec) in
         if num_quantiles = 0 then Inl QuantilesNotSpecified
         else validate_stats rsv disaggregated quantiles stats
                (store_values', stat_result_size + num_quantiles))
      else validate_stats rsv disaggregated quantiles stats
             (store_values', stat_result_size + 1))"

text \<open>
  Lines 272-303: one window. Every \<^verbatim>\<open>read_box\<close> and every \<^verbatim>\<open>process\<close> is
  logged; \<^verbatim>\<open>raster_stats[i]\<close> is updated in place.
\<close>

definition process_both ::
  "'acc raster_stats \<Rightarrow> raster \<Rightarrow> (nat \<Rightarrow> raster) \<Rightarrow> (nat \<Rightarrow> raster) \<Rightarrow> nat
     \<Rightarrow> 'acc list \<Rightarrow> 'acc list" where
  "process_both ops coverage_fraction values weights i raster_stats =
     raster_stats[i := rs_process_weighted ops (raster_stats ! i) coverage_fraction
                         (values i) (weights i)]"

definition process_window ::
  "'acc raster_stats \<Rightarrow> s4_raster \<Rightarrow> real \<Rightarrow> s4_raster option \<Rightarrow> real \<Rightarrow> raster
     \<Rightarrow> event list \<times> 'acc list \<Rightarrow> event list \<times> 'acc list" where
  "process_window ops rast default_value weights default_weight coverage_fraction st =
     (let ext = extent (rgrid coverage_fraction);
          nlayers = get_nlayers rast in
      case weights of
        Some w \<Rightarrow>
          (let nweights = get_nlayers w in
           if nlayers > nweights then
             fold (\<lambda>i (tr, rss).
                     (tr @ [ReadValues ext i, Process i],
                      process_both ops coverage_fraction
                        (read_box rast default_value ext) (\<lambda>_. read_box w default_weight ext 0) i rss))
                  [0..<nlayers] (fst st @ [ReadWeights ext 0], snd st)
           else if nweights > nlayers then
             fold (\<lambda>i (tr, rss).
                     (tr @ [ReadWeights ext i, Process i],
                      process_both ops coverage_fraction
                        (\<lambda>_. read_box rast default_value ext 0) (read_box w default_weight ext) i rss))
                  [0..<nweights] (fst st @ [ReadValues ext 0], snd st)
           else
             fold (\<lambda>i (tr, rss).
                     (tr @ [ReadValues ext i, ReadWeights ext i, Process i],
                      process_both ops coverage_fraction
                        (read_box rast default_value ext) (read_box w default_weight ext) i rss))
                  [0..<nlayers] st)
      | None \<Rightarrow>
          fold (\<lambda>i (tr, rss).
                  (tr @ [ReadValues ext i, Process i],
                   rss[i := rs_process ops (rss ! i) coverage_fraction
                              (read_box rast default_value ext i)]))
               [0..<nlayers] st)"

text \<open>
  Lines 267-305: the loop over the sub-grids. A failure of the coverage computation ends
  the call.
\<close>

fun process_subgrids ::
  "'geom collaborators \<Rightarrow> 'acc raster_stats \<Rightarrow> s4_raster \<Rightarrow> real \<Rightarrow> s4_raster option \<Rightarrow> real
     \<Rightarrow> 'geom \<Rightarrow> grid list \<Rightarrow> event list \<times> 'acc list \<Rightarrow> event list \<times> (error + 'acc list)" where
  "process_subgrids env ops rast default_value weights default_weight geom [] (tr, rss) =
     (tr, Inr rss)"
| "process_subgrids env ops rast default_value weights default_weight geom (subgrid # rest) (tr, rss) =
     (case raster_cell_intersection env subgrid geom of
        None \<Rightarrow> (tr @ [Coverage subgrid], Inl CoverageError)
      | Some coverage_fraction \<Rightarrow>
          process_subgrids env ops rast default_value weights default_weight geom rest
            (if \<not> grid_empty env (rgrid coverage_fraction)
             then process_window ops rast default_value weights default_weight coverage_fraction
                    (tr @ [Coverage subgrid], rss)
             else (tr @ [Coverage subgrid], rss)))"

text \<open>\<^verbatim>\<open>std::optional::value_or(NA_REAL)\<close>.\<close>

definition value_or_NA :: "real option \<Rightarrow> dbl" where
  "value_or_NA x = (case x of None \<Rightarrow> NA_REAL | Some v \<Rightarrow> Dbl v)"

text \<open>
  Lines 313-342: the cells one requested statistic writes into row \<open>j\<close>, or the
  \<^verbatim>\<open>Rcpp::stop\<close> of the last branch. Line 336 is reached only after line 244 has
  found a vector of fractions that is not empty; without one the model writes no cell.
\<close>

definition stat_cells ::
  "'acc raster_stats \<Rightarrow> real list option \<Rightarrow> 'acc \<Rightarrow> string \<Rightarrow> error + dbl list" where
  "stat_cells ops quantiles rs stat =
     (if stat = ''mean'' then Inr [rs_mean ops rs]
      else if stat = ''sum'' then Inr [rs_sum ops rs]
      else if stat = ''count'' then Inr [rs_count ops rs]
      else if stat = ''min'' then Inr [value_or_NA (rs_min ops rs)]
      else if stat = ''max'' then Inr [value_or_NA (rs_max ops rs)]
      else if stat = ''median'' then Inr [value_or_NA (rs_quantile ops rs 0.5)]
      else if stat = ''mode'' then Inr [value_or_NA (rs_mode ops rs)]
      else if stat = ''majority'' then Inr [value_or_NA (rs_mode ops rs)]
      else if stat = ''minority'' then Inr [value_or_NA (rs_minority ops rs)]
      else if stat = ''variety'' then Inr [rs_variety ops rs]
      else if stat = ''weighted_mean'' then Inr [rs_weighted_mean ops rs]
      else if stat = ''weighted_sum'' then Inr [rs_weighted_sum ops rs]
      else if stat = ''variance'' then Inr [rs_variance ops rs]
      else if stat = ''stdev'' then Inr [rs_stdev ops rs]
      else if stat = ''coefficient_of_variation'' then Inr [rs_coefficient_of_variation ops rs]
      else if stat = ''quantile'' then
        Inr (map (\<lambda>q. value_or_NA (rs_quantile ops rs q))
               (case quantiles of None \<Rightarrow> [] | Some qvec \<Rightarrow> qvec))
      else Inl (UnknownStat stat))"

text \<open>Lines 311-343: the inner loop fills one row from left to right.\<close>

fun stat_row ::
  "'acc raster_stats \<Rightarrow> real list option \<Rightarrow> 'acc \<Rightarrow> string list \<Rightarrow> error + dbl list" where
  "stat_row ops quantiles rs [] = Inr []"
| "stat_row ops quantiles rs (stat # stats) =
     (case stat_cells ops quantiles rs stat of
        Inl e \<Rightarrow> Inl e
      | Inr vs \<Rightarrow>
          (case stat_row ops quantiles rs stats of
             Inl e \<Rightarrow> Inl e
           | Inr row \<Rightarrow> Inr (vs @ row)))"

text \<open>Lines 308-344: the outer loop, one row per accumulator.\<close>

fun stat_rows ::
  "'acc raster_stats \<Rightarrow> real list option \<Rightarrow> string list \<Rightarrow> 'acc list \<Rightarrow> error + dbl list list" where
  "stat_rows ops quantiles stats [] = Inr []"
| "stat_rows ops quantiles stats (rs # rss) =
     (case stat_row ops quantiles rs stats of
        Inl e \<Rightarrow> Inl e
      | Inr row \<Rightarrow>
          (case stat_rows ops quantiles stats rss of
             Inl e \<Rightarrow> Inl e
           | Inr rows \<Rightarrow> Inr (row # rows)))"

text \<open>Line 222: the grid the statistics are computed on.\<close>

definition stats_grid :: "'geom collaborators \<Rightarrow> s4_raster \<Rightarrow> s4_raster option \<Rightarrow> grid" where
  "stats_grid env rast weights =
     (case weights of
        None \<Rightarrow> make_grid rast
      | Some w \<Rightarrow> common_grid env (make_grid rast) (make_grid w))"

text \<open>Line 224.\<close>

definition disaggregated :: "'geom collaborators \<Rightarrow> s4_raster \<Rightarrow> s4_raster option \<Rightarrow> bool" where
  "disaggregated env rast weights =
     (dx (stats_grid env rast weights) < dx (make_grid rast) \<or>
      dy (stats_grid env rast weights) < dy (make_grid rast))"

text \<open>Lines 206-209: \<^verbatim>\<open>nweights\<close> stays 0 without a weighting raster.\<close>

definition nweights_of :: "s4_raster option \<Rightarrow> nat" where
  "nweights_of weights = (case weights of None \<Rightarrow> 0 | Some w \<Rightarrow> get_nlayers w)"

text \<open>
  Lines 264-306: all the windows, from the fresh accumulators. At this point
  \<^verbatim>\<open>max_cells_in_memory\<close> is at least 1, and \<^verbatim>\<open>subdivide\<close> takes it as an
  unsigned number.
\<close>

definition run_windows ::
  "'geom collaborators \<Rightarrow> 'acc raster_stats \<Rightarrow> s4_raster \<Rightarrow> real \<Rightarrow> s4_raster option \<Rightarrow> real
     \<Rightarrow> 'geom \<Rightarrow> int \<Rightarrow> 'acc list \<Rightarrow> event list \<times> (error + 'acc list)" where
  "run_windows env ops rast default_value weights default_weight geom max_cells_in_memory raster_stats =
     (let bbox = geos_get_box env geom;
          grid = stats_grid env rast weights in
      if intersects env bbox (extent grid) then
        process_subgrids env ops rast default_value weights default_weight geom
          (subdivide env (crop env grid bbox) (nat max_cells_in_memory)) ([], raster_stats)
      else ([], Inr raster_stats))"

text \<open>
  \<^verbatim>\<open>CPP_stats\<close>, lines 185-351. The result is the log of the calls made and either the
  error raised or the matrix returned. The matrix is allocated without initial values
  (line 262); \<open>cells\<close> holds, row by row, the cells that lines 308-344 write. The
  handler of line 347 raises the error it caught again, with the same message.
\<close>

definition CPP_stats ::
  "'geom collaborators \<Rightarrow> 'acc raster_stats \<Rightarrow> s4_raster \<Rightarrow> s4_raster option \<Rightarrow> 8 word list
     \<Rightarrow> real \<Rightarrow> real \<Rightarrow> string list \<Rightarrow> int \<Rightarrow> real list option
     \<Rightarrow> event list \<times> (error + matrix)" where
  "CPP_stats env ops rast weights wkb default_value default_weight stats max_cells_in_memory quantiles =
     (if max_cells_in_memory < 1 then ([], Inl (InvalidMaxCells max_cells_in_memory))
      else
        let nlayers = get_nlayers rast;
            nweights = nweights_of weights in
        if weights \<noteq> None \<and> nlayers > 1 \<and> nweights > 1 \<and> nlayers \<noteq> nweights
        then ([], Inl IncompatibleLayers)
        else
          case read_wkb env wkb of
            None \<Rightarrow> ([], Inl GeometryError)
          | Some geom \<Rightarrow>
              (case validate_stats (requires_stored_values env) (disaggregated env rast weights)
                      quantiles stats (False, 0) of
                 Inl e \<Rightarrow> ([], Inl e)
               | Inr (store_values, stat_result_size) \<Rightarrow>
                   (let nresults = max nlayers nweights;
                        raster_stats = replicate nresults (rs_new ops store_values) in
                    case run_windows env ops rast default_value weights default_weight geom
                           max_cells_in_memory raster_stats of
                      (tr, Inl e) \<Rightarrow> (tr, Inl e)
                    | (tr, Inr rss) \<Rightarrow>
                        (case stat_rows ops quantiles stats rss of
                           Inl e \<Rightarrow> (tr, Inl e)
                         | Inr rows \<Rightarrow>
                             (tr, Inr \<lparr>nrow = nresults, ncol = stat_result_size,
                                       cells = rows\<rparr>)))))"


text \<open>The names the chain of comparisons of lines 313-335 accepts.\<close>

definition supported_stats :: "string list" where
  "supported_stats =
     [''mean'', ''sum'', ''count'', ''min'', ''max'', ''median'', ''mode'', ''majority'',
      ''minority'', ''variety'', ''weighted_mean'', ''weighted_sum'', ''variance'', ''stdev'',
      ''coefficient_of_variation'', ''quantile'']"

text \<open>The number of cells \<^verbatim>\<open>i++\<close> advances by for one statistic (lines 313-340).\<close>

definition stat_width :: "real list option \<Rightarrow> string \<Rightarrow> nat" where
  "stat_width quantiles stat =
     (if stat = ''quantile'' then (case quantiles of None \<Rightarrow> 0 | Some qvec \<Rightarrow> length qvec)
      else 1)"

text \<open>
  Modelled from the spec: the error taxonomy of section 7. \<^verbatim>\<open>exact_extract.cpp\<close>
  raises every error through \<^verbatim>\<open>Rcpp::stop\<close> with a message and has no error classes
  of its own. Configuration errors are: invalid \<^verbatim>\<open>maxCells\<close>, unknown statistic name,
  quantile requested with no fractions, incompatible layer counts.
\<close>

fun is_configuration_error :: "error \<Rightarrow> bool" where
  "is_configuration_error (InvalidMaxCells _) = True"
| "is_configuration_error IncompatibleLayers = True"
| "is_configuration_error QuantilesNotSpecified = True"
| "is_configuration_error (UnknownStat _) = True"
| "is_configuration_error _ = False"

section \<open>The extraction table: \<^verbatim>\<open>CPP_exact_extract\<close>\<close>

text \<open>
  A column of the returned list: a pass-through column of the caller, kept as it is, or a
  numeric vector.
\<close>

datatype 'a column = PassThrough 'a | Numeric "real list"

text \<open>
  \<^verbatim>\<open>cols[name] = v\<close> on an \<^verbatim>\<open>Rcpp::List\<close>: the first element of that name is
  replaced where it stands; without such an element the value is appended under the name.
\<close>

fun set_col :: "string \<Rightarrow> 'c \<Rightarrow> (string \<times> 'c) list \<Rightarrow> (string \<times> 'c) list" where
  "set_col name v [] = [(name, v)]"
| "set_col name v ((n, x) # cols) =
     (if n = name then (name, v) # cols else (n, x) # set_col name v cols)"

definition containsElementNamed :: "(string \<times> 'c) list \<Rightarrow> string \<Rightarrow> bool" where
  "containsElementNamed cols name = (name \<in> set (map fst cols))"

text \<open>
  \<^verbatim>\<open>v[covered]\<close> with a logical vector: Rcpp stops unless both have the same size.
\<close>

definition subset_covered :: "real list \<Rightarrow> bool list \<Rightarrow> error + real list" where
  "subset_covered v covered =
     (if length v \<noteq> length covered then Inl SubsetSizeMismatch
      else Inr (map fst (filter snd (zip v covered))))"

definition bind_error :: "error + 'a \<Rightarrow> ('a \<Rightarrow> error + 'b) \<Rightarrow> error + 'b" where
  "bind_error r f = (case r of Inl e \<Rightarrow> Inl e | Inr x \<Rightarrow> f x)"

text \<open>
  \<^verbatim>\<open>names[i]\<close> on a character vector; reading past its end is undefined in the source
  and ends the model with an error.
\<close>

definition name_at :: "string list \<Rightarrow> nat \<Rightarrow> error + string" where
  "name_at names i = (if i < length names then Inr (names ! i) else Inl IndexOutOfBounds)"

text \<open>Lines 103-111: the pass-through columns, each looked up by its name.\<close>

definition include_columns ::
  "(string \<times> 'a) list option \<Rightarrow> (string \<times> 'a column) list \<Rightarrow> (string \<times> 'a column) list" where
  "include_columns include_cols cols =
     (case include_cols of
        None \<Rightarrow> cols
      | Some include_cols_list \<Rightarrow>
          fold (\<lambda>name cols.
                  case map_of include_cols_list name of
                    None \<Rightarrow> cols
                  | Some v \<Rightarrow> set_col name (PassThrough v) cols)
               (map fst include_cols_list) cols)"

text \<open>
  Lines 114-131 and 136-149: one layer read over the extent of the coverage grid, moved to
  the common grid when the resolutions or the sizes differ, and cut down to the covered
  cells.
\<close>

definition layer_vec ::
  "'geom collaborators \<Rightarrow> s4_raster \<Rightarrow> real \<Rightarrow> grid \<Rightarrow> grid \<Rightarrow> grid \<Rightarrow> bool list \<Rightarrow> nat
     \<Rightarrow> error + real list" where
  "layer_vec env rast default_value layer_grid common cov_grid covered i =
     (let r = read_box rast default_value (extent cov_grid) i;
          value_vec = rvalues r;
          value_vec' =
            (if dx layer_grid \<noteq> dx common \<or> dy layer_grid \<noteq> dy common \<or>
                length value_vec \<noteq> length covered
             then raster_view env r common else value_vec)
      in subset_covered value_vec' covered)"

text \<open>Lines 113-133: one column per value layer.\<close>

fun value_columns ::
  "'geom collaborators \<Rightarrow> s4_raster \<Rightarrow> real \<Rightarrow> grid \<Rightarrow> grid \<Rightarrow> bool list \<Rightarrow> string list
     \<Rightarrow> nat list \<Rightarrow> (string \<times> 'a column) list \<Rightarrow> error + (string \<times> 'a column) list" where
  "value_columns env rast default_value common cov_grid covered src_names [] cols = Inr cols"
| "value_columns env rast default_value common cov_grid covered src_names (i # is) cols =
     bind_error (layer_vec env rast default_value (make_grid rast) common cov_grid covered i)
       (\<lambda>value_vec.
          bind_error (name_at src_names i)
            (\<lambda>name. value_columns env rast default_value common cov_grid covered src_names is
                       (set_col name (Numeric value_vec) cols)))"

text \<open>Lines 135-160: one column per weight layer, renamed when its name is taken.\<close>

fun weight_columns ::
  "'geom collaborators \<Rightarrow> s4_raster \<Rightarrow> real \<Rightarrow> grid \<Rightarrow> grid \<Rightarrow> bool list \<Rightarrow> string list
     \<Rightarrow> nat list \<Rightarrow> (string \<times> 'a column) list \<Rightarrow> error + (string \<times> 'a column) list" where
  "weight_columns env w default_weight common cov_grid covered weights_names [] cols = Inr cols"
| "weight_columns env w default_weight common cov_grid covered weights_names (i # is) cols =
     bind_error (layer_vec env w default_weight (make_grid w) common cov_grid covered i)
       (\<lambda>weight_vec.
          bind_error (name_at weights_names i)
            (\<lambda>name.
               (let colname = (if containsElementNamed cols name then name @ ''.1'' else name)
                in weight_columns env w default_weight common cov_grid covered weights_names is
                     (set_col colname (Numeric weight_vec) cols))))"

text \<open>Lines 162-172: the coordinates, from the raster of the higher resolution.\<close>

definition xy_columns ::
  "s4_raster \<Rightarrow> s4_raster option \<Rightarrow> grid \<Rightarrow> bool list \<Rightarrow> (string \<times> 'a column) list
     \<Rightarrow> error + (string \<times> 'a column) list" where
  "xy_columns rast weights cov_grid covered cols =
     (let src =
        (case weights of
           None \<Rightarrow> rast
         | Some w \<Rightarrow>
             if get_nlayers w > 0 \<and>
                (dx (make_grid w) < dx (make_grid rast) \<or> dy (make_grid w) < dy (make_grid rast))
             then w else rast)
      in bind_error (subset_covered (get_x_values src cov_grid) covered)
           (\<lambda>x. bind_error (subset_covered (get_y_values src cov_grid) covered)
                   (\<lambda>y. Inr (set_col ''y'' (Numeric y) (set_col ''x'' (Numeric x) cols)))))"

text \<open>
  Lines 69-77: without a weighting raster the vector of weight names stays empty. With
  one, \<^verbatim>\<open>p_weights_names.get()\<close> is assigned to a character vector, and Rcpp's
  conversion refuses an R \<^verbatim>\<open>NULL\<close> there.
\<close>

definition weights_names_of :: "s4_raster option \<Rightarrow> string list option \<Rightarrow> error + string list" where
  "weights_names_of weights p_weights_names =
     (case weights of
        None \<Rightarrow> Inr []
      | Some w \<Rightarrow> (case p_weights_names of None \<Rightarrow> Inl NotCompatible | Some ns \<Rightarrow> Inr ns))"

text \<open>
  \<^verbatim>\<open>CPP_exact_extract\<close>, lines 46-181. The result tells whether the warning of line 80
  was given, and is the error raised or the list of named columns.
\<close>

definition CPP_exact_extract ::
  "'geom collaborators \<Rightarrow> s4_raster \<Rightarrow> s4_raster option \<Rightarrow> 8 word list \<Rightarrow> real \<Rightarrow> real
     \<Rightarrow> bool \<Rightarrow> bool \<Rightarrow> (string \<times> 'a) list option \<Rightarrow> string list \<Rightarrow> string list option \<Rightarrow> bool
     \<Rightarrow> bool \<times> (error + (string \<times> 'a column) list)" where
  "CPP_exact_extract env rast weights wkb default_value default_weight include_xy
     include_cell_number include_cols src_names p_weights_names warn_on_disaggregate =
     (let grid = make_grid rast;
          common = stats_grid env rast weights;
          src_nlayers = get_nlayers rast;
          weights_nlayers = nweights_of weights
      in case weights_names_of weights p_weights_names of
           Inl e \<Rightarrow> (False, Inl e)
         | Inr weights_names \<Rightarrow>
             (let warned = (weights \<noteq> None \<and> warn_on_disaggregate \<and>
                            (dx common < dx grid \<or> dy common < dy grid))
              in case read_wkb env wkb of
                   None \<Rightarrow> (warned, Inl GeometryError)
                 | Some geom \<Rightarrow>
                     (let bbox = geos_get_box env geom;
                          common' = crop env common bbox
                      in case raster_cell_intersection env common' geom of
                           None \<Rightarrow> (warned, Inl CoverageError)
                         | Some coverage_fractions \<Rightarrow>
                             (let cov_grid = rgrid coverage_fractions;
                                  coverage_fraction_vec = rvalues coverage_fractions;
                                  covered = map (\<lambda>c. c > 0) coverage_fraction_vec
                              in (warned,
                                  bind_error
                                    (value_columns env rast default_value common' cov_grid
                                       covered src_names [0..<src_nlayers]
                                       (include_columns include_cols []))
                                    (\<lambda>cols.
                                       bind_error
                                         (case weights of
                                            None \<Rightarrow> Inr cols
                                          | Some w \<Rightarrow>
                                              weight_columns env w default_weight common'
                                                cov_grid covered weights_names
                                                [0..<weights_nlayers] cols)
                                         (\<lambda>cols.
                                            bind_error
                                              (if include_xy
                                               then xy_columns rast weights cov_grid covered cols
                                               else Inr cols)
                                              (\<lambda>cols.
                                                 bind_error
                                                   (if include_cell_number
                                                    then bind_error
                                                           (subset_covered
                                                              (get_cell_numbers rast cov_grid)
                                                              covered)
                                                           (\<lambda>cell. Inr (set_col ''cell''
                                                                           (Numeric cell) cols))
                                                    else Inr cols)
                                                   (\<lambda>cols.
                                                      bind_error
                                                        (subset_covered coverage_fraction_vec
                                                           covered)
                                                        (\<lambda>cf. Inr (set_col ''coverage_fraction''
                                                                     (Numeric cf) cols)))))))))))"

text \<open>
  The names the columns take when no assignment meets a name already in the list: each
  weight name gets \<open>.1\<close> appended when it is among the names placed before it.
\<close>

fun weight_colnames :: "string list \<Rightarrow> string list \<Rightarrow> string list" where
  "weight_colnames placed [] = []"
| "weight_colnames placed (name # names) =
     (let colname = (if name \<in> set placed then name @ ''.1'' else name)
      in colname # weight_colnames (placed @ [colname]) names)"

text \<open>The names of the pass-through columns.\<close>

definition include_col_names :: "(string \<times> 'a) list option \<Rightarrow> string list" where
  "include_col_names include_cols = (case include_cols of None \<Rightarrow> [] | Some l \<Rightarrow> map fst l)"

text \<open>
  Columns that have one row per covered cell: every numeric vector has \<open>k\<close> entries, and
  a pass-through value is one of the caller's.
\<close>

definition row_columns :: "nat \<Rightarrow> 'a set \<Rightarrow> (string \<times> 'a column) list \<Rightarrow> bool" where
  "row_columns k passed cols =
     (\<forall>c \<in> set cols. case snd c of Numeric v \<Rightarrow> length v = k | PassThrough a \<Rightarrow> a \<in> passed)"

text \<open>The values \<open>vs\<close> at the cells whose coverage fraction is greater than 0.\<close>

definition covered_cells :: "real list \<Rightarrow> real list \<Rightarrow> real list" where
  "covered_cells coverage vs = map fst (filter (\<lambda>(v, c). 0 < c) (zip vs coverage))"

text \<open>
  What the column of layer \<open>i\<close> of a raster holds: the layer read over the extent of the
  coverage grid, taken to the common grid when the cell sizes or the number of cells
  differ, at the covered cells.
\<close>

definition layer_column ::
  "'geom collaborators \<Rightarrow> s4_raster \<Rightarrow> real \<Rightarrow> grid \<Rightarrow> raster \<Rightarrow> nat \<Rightarrow> real list" where
  "layer_column env r default_value common cov i =
     covered_cells (rvalues cov)
       (if dx (make_grid r) \<noteq> dx common \<or> dy (make_grid r) \<noteq> dy common \<or>
           length (rvalues (read_box r default_value (extent (rgrid cov)) i)) \<noteq> length (rvalues cov)
        then raster_view env (read_box r default_value (extent (rgrid cov)) i) common
        else rvalues (read_box r default_value (extent (rgrid cov)) i))"

text \<open>The raster the coordinates are taken from: the one of the finer cells (line 164).\<close>

definition finer_raster :: "s4_raster \<Rightarrow> s4_raster option \<Rightarrow> s4_raster" where
  "finer_raster rast weights =
     (case weights of
        None \<Rightarrow> rast
      | Some w \<Rightarrow>
          if 0 < get_nlayers w \<and>
             (dx (make_grid w) < dx (make_grid rast) \<or> dy (make_grid w) < dy (make_grid rast))
          then w else rast)"

definition column_names ::
  "string list \<Rightarrow> string list \<Rightarrow> string list \<Rightarrow> bool \<Rightarrow> bool \<Rightarrow> string list" where
  "column_names include_names value_names weight_names include_xy include_cell_number =
     include_names @ value_names @
     weight_colnames (include_names @ value_names) weight_names @
     (if include_xy then [''x'', ''y''] else []) @
     (if include_cell_number then [''cell''] else []) @
     [''coverage_fraction'']"

text \<open>
  The table for names that do not meet: the caller's columns, a column for each value
  layer, a column for each weight layer under its name after renaming, the coordinates,
  the cell numbers and the coverage fractions, all at the covered cells of the coverage
  grid \<open>cov\<close>.
\<close>

definition extraction_table ::
  "'geom collaborators \<Rightarrow> s4_raster \<Rightarrow> s4_raster option \<Rightarrow> real \<Rightarrow> real \<Rightarrow> bool \<Rightarrow> bool
     \<Rightarrow> (string \<times> 'a) list option \<Rightarrow> string list \<Rightarrow> string list \<Rightarrow> grid \<Rightarrow> raster
     \<Rightarrow> (string \<times> 'a column) list" where
  "extraction_table env rast weights default_value default_weight include_xy include_cell_number
     include_cols src_names weights_names common cov =
     (case include_cols of None \<Rightarrow> [] | Some l \<Rightarrow> map (\<lambda>(n, v). (n, PassThrough v)) l) @
     map (\<lambda>i. (src_names ! i, Numeric (layer_column env rast default_value common cov i)))
       [0..<get_nlayers rast] @
     (case weights of
        None \<Rightarrow> []
      | Some w \<Rightarrow>
          map (\<lambda>(name, i). (name, Numeric (layer_column env w default_weight common cov i)))
            (zip (weight_colnames
                    (include_col_names include_cols @ take (get_nlayers rast) src_names)
                    (take (get_nlayers w) weights_names))
               [0..<get_nlayers w])) @
     (if include_xy
      then [(''x'', Numeric (covered_cells (rvalues cov)
                              (get_x_values (finer_raster rast weights) (rgrid cov)))),
            (''y'', Numeric (covered_cells (rvalues cov)
                              (get_y_values (finer_raster rast weights) (rgrid cov))))]
      else []) @
     (if include_cell_number
      then [(''cell'', Numeric (covered_cells (rvalues cov) (get_cell_numbers rast (rgrid cov))))]
      else []) @
     [(''coverage_fraction'', Numeric (filter (\<lambda>c. 0 < c) (rvalues cov)))]"


section \<open>The accumulator, after the specification\<close>

text \<open>
  Modelled from the spec: \<^verbatim>\<open>RasterStats\<close> (\<^verbatim>\<open>raster_stats.h\<close>) is not part of
  \<^verbatim>\<open>exact_extract.cpp\<close>. Section 3 gives its running state: coverage-weighted count,
  sum, sum of squares, sum of weights, weighted sum, minimum, maximum and, only when a
  distribution-dependent statistic was requested, the cumulative coverage of each distinct
  value.
\<close>

record stats_acc =
  acc_store_values :: bool
  acc_count :: real
  acc_sum :: real
  acc_sum_squares :: real
  acc_sum_weights :: real
  acc_weighted_sum :: real
  acc_min :: "real option"
  acc_max :: "real option"
  acc_freq :: "(real \<times> real) list"

definition acc_new :: "bool \<Rightarrow> stats_acc" where
  "acc_new store_values =
     \<lparr>acc_store_values = store_values, acc_count = 0, acc_sum = 0, acc_sum_squares = 0,
      acc_sum_weights = 0, acc_weighted_sum = 0, acc_min = None, acc_max = None,
      acc_freq = []\<rparr>"

text \<open>Modelled from the spec: union and add on the mapping from value to coverage (section 4.4).\<close>

fun freq_add :: "real \<Rightarrow> real \<Rightarrow> (real \<times> real) list \<Rightarrow> (real \<times> real) list" where
  "freq_add v c [] = [(v, c)]"
| "freq_add v c ((u, d) # m) = (if u = v then (u, d + c) # m else (u, d) # freq_add v c m)"

text \<open>
  Modelled from the spec: the sums of section 4.4 run over the covered cells (a cell of
  fraction 0 is not covered) and grow by addition; a cell is its coverage fraction, its
  value and its weight.
\<close>

definition acc_cell :: "real \<times> real \<times> real \<Rightarrow> stats_acc \<Rightarrow> stats_acc" where
  "acc_cell cvw a =
     (case cvw of
        (c, v, w) \<Rightarrow>
          if c > 0 then
            a\<lparr>acc_count := acc_count a + c,
              acc_sum := acc_sum a + v * c,
              acc_sum_squares := acc_sum_squares a + v * v * c,
              acc_sum_weights := acc_sum_weights a + c * w,
              acc_weighted_sum := acc_weighted_sum a + v * c * w,
              acc_min := (case acc_min a of None \<Rightarrow> Some v | Some m \<Rightarrow> Some (min m v)),
              acc_max := (case acc_max a of None \<Rightarrow> Some v | Some m \<Rightarrow> Some (max m v)),
              acc_freq := (if acc_store_values a then freq_add v c (acc_freq a) else acc_freq a)\<rparr>
          else a)"

definition acc_process_weighted :: "stats_acc \<Rightarrow> raster \<Rightarrow> raster \<Rightarrow> raster \<Rightarrow> stats_acc" where
  "acc_process_weighted a coverage values weights =
     fold acc_cell (zip (rvalues coverage) (zip (rvalues values) (rvalues weights))) a"

text \<open>
  Modelled from the spec: without a weighting raster every cell has weight 1 (the
  unweighted-equivalence property of section 8).
\<close>

definition acc_process :: "stats_acc \<Rightarrow> raster \<Rightarrow> raster \<Rightarrow> stats_acc" where
  "acc_process a coverage values =
     fold acc_cell (zip (rvalues coverage) (map (\<lambda>v. (v, 1)) (rvalues values))) a"

text \<open>
  Modelled from the spec: the formulas of section 4.4. A statistic read at count 0 is the
  missing value, except count and variety. A quotient whose divisor is 0 is not a real
  number and is given as missing.
\<close>

definition when_counted :: "stats_acc \<Rightarrow> real \<Rightarrow> dbl" where
  "when_counted a x = (if acc_count a = 0 then NA_REAL else Dbl x)"

definition acc_mean :: "stats_acc \<Rightarrow> dbl" where
  "acc_mean a = when_counted a (acc_sum a / acc_count a)"

definition acc_variance_value :: "stats_acc \<Rightarrow> real" where
  "acc_variance_value a =
     acc_sum_squares a / acc_count a - (acc_sum a / acc_count a) * (acc_sum a / acc_count a)"

definition acc_weighted_mean :: "stats_acc \<Rightarrow> dbl" where
  "acc_weighted_mean a =
     (if acc_sum_weights a = 0 then NA_REAL
      else when_counted a (acc_weighted_sum a / acc_sum_weights a))"

definition acc_coefficient_of_variation :: "(real \<Rightarrow> real) \<Rightarrow> stats_acc \<Rightarrow> dbl" where
  "acc_coefficient_of_variation sqrt_fn a =
     (if acc_sum a = 0 then NA_REAL
      else when_counted a (sqrt_fn (acc_variance_value a) / (acc_sum a / acc_count a)))"

definition acc_optional :: "stats_acc \<Rightarrow> real option \<Rightarrow> real option" where
  "acc_optional a x = (if acc_count a = 0 then None else x)"

text \<open>The value of the largest (smallest) cumulative coverage; the first one among equals.\<close>

fun freq_best :: "(real \<Rightarrow> real \<Rightarrow> bool) \<Rightarrow> (real \<times> real) list \<Rightarrow> real option" where
  "freq_best better [] = None"
| "freq_best better (x # xs) =
     Some (fst (fold (\<lambda>y best. if better (snd y) (snd best) then y else best) xs x))"

text \<open>
  Modelled from the spec: section 9 leaves the interpolation rule of the coverage-weighted
  quantile open, so the rule is a parameter: it maps the distinct values with their
  cumulative coverage and the fraction \<open>q\<close> to the quantile. The square root of the
  double arithmetic is the parameter \<open>sqrt_fn\<close>.
\<close>

definition spec_raster_stats ::
  "((real \<times> real) list \<Rightarrow> real \<Rightarrow> real) \<Rightarrow> (real \<Rightarrow> real) \<Rightarrow> stats_acc raster_stats" where
  "spec_raster_stats interp sqrt_fn =
     \<lparr>rs_new = acc_new,
      rs_process = acc_process,
      rs_process_weighted = acc_process_weighted,
      rs_mean = acc_mean,
      rs_sum = (\<lambda>a. when_counted a (acc_sum a)),
      rs_count = (\<lambda>a. Dbl (acc_count a)),
      rs_min = (\<lambda>a. acc_optional a (acc_min a)),
      rs_max = (\<lambda>a. acc_optional a (acc_max a)),
      rs_quantile = (\<lambda>a q. acc_optional a (Some (interp (acc_freq a) q))),
      rs_mode = (\<lambda>a. acc_optional a (freq_best (\<lambda>x y. x > y) (acc_freq a))),
      rs_minority = (\<lambda>a. acc_optional a (freq_best (\<lambda>x y. x < y) (acc_freq a))),
      rs_variety = (\<lambda>a. Dbl (real (length (acc_freq a)))),
      rs_weighted_mean = acc_weighted_mean,
      rs_weighted_sum = (\<lambda>a. when_counted a (acc_weighted_sum a)),
      rs_variance = (\<lambda>a. when_counted a (acc_variance_value a)),
      rs_stdev = (\<lambda>a. when_counted a (sqrt_fn (acc_variance_value a))),
      rs_coefficient_of_variation = acc_coefficient_of_variation sqrt_fn\<rparr>"

text \<open>
  Modelled from the spec: \<^verbatim>\<open>requires_stored_values\<close> is declared in a header outside
  \<^verbatim>\<open>exact_extract.cpp\<close>. Section 4.4 names the distribution-dependent statistics:
  mode (majority), minority, variety, quantile, median.
\<close>

definition spec_requires_stored_values :: "string \<Rightarrow> bool" where
  "spec_requires_stored_values stat =
     (stat \<in> set [''mode'', ''majority'', ''minority'', ''variety'', ''quantile'', ''median''])"

text \<open>What a row holds for a request when nothing was covered (section 4.4).\<close>

definition zero_coverage_cells :: "real list option \<Rightarrow> string \<Rightarrow> dbl list" where
  "zero_coverage_cells quantiles stat =
     (if stat = ''count'' \<or> stat = ''variety'' then [Dbl 0]
      else replicate (stat_width quantiles stat) NA_REAL)"

section \<open>A small setting to run the model in\<close>

text \<open>
  Concrete collaborators for running the definitions on an input: a geometry is given by
  its bounding box and the coverage fractions it leaves on the cells of the window, any
  non-empty byte string decodes to the geometry \<open>geom\<close>, grids are reconciled to the finer
  cell size on the common extent, and a grid is one window.
\<close>

definition box_intersection :: "box \<Rightarrow> box \<Rightarrow> box" where
  "box_intersection a b =
     \<lparr>xmin = max (xmin a) (xmin b), ymin = max (ymin a) (ymin b),
      xmax = min (xmax a) (xmax b), ymax = min (ymax a) (ymax b)\<rparr>"

definition ex_env :: "box \<times> real list \<Rightarrow> (box \<times> real list) collaborators" where
  "ex_env geom =
     \<lparr>read_wkb = (\<lambda>wkb. if wkb = [] then None else Some geom),
      geos_get_box = fst,
      common_grid = (\<lambda>a b. \<lparr>extent = box_intersection (extent a) (extent b),
                              dx = min (dx a) (dx b), dy = min (dy a) (dy b)\<rparr>),
      intersects = (\<lambda>a b. \<not> (xmax a < xmin b \<or> xmax b < xmin a \<or>
                                ymax a < ymin b \<or> ymax b < ymin a)),
      crop = (\<lambda>g b. g\<lparr>extent := box_intersection (extent g) b\<rparr>),
      subdivide = (\<lambda>g n. [g]),
      raster_cell_intersection = (\<lambda>g geom. Some \<lparr>rgrid = g, rvalues = snd geom\<rparr>),
      grid_empty = (\<lambda>g. xmax (extent g) \<le> xmin (extent g) \<or> ymax (extent g) \<le> ymin (extent g)),
      requires_stored_values = spec_requires_stored_values,
      raster_view = (\<lambda>r g. rvalues r)\<rparr>"

text \<open>
  A raster object on grid \<open>g\<close> whose layers are the given lists of cell values; its
  coordinates and cell numbers are those of two cells side by side.
\<close>

definition ex_raster :: "grid \<Rightarrow> real list list \<Rightarrow> s4_raster" where
  "ex_raster g layers =
     \<lparr>get_nlayers = length layers,
      make_grid = g,
      read_box = (\<lambda>default b i. \<lparr>rgrid = g\<lparr>extent := b\<rparr>,
                                   rvalues = (if i < length layers then layers ! i else [])\<rparr>),
      get_x_values = (\<lambda>g. [1 / 2, 3 / 2]),
      get_y_values = (\<lambda>g. [1 / 2, 1 / 2]),
      get_cell_numbers = (\<lambda>g. [1, 2])\<rparr>"

text \<open>Two cells side by side, and the same extent at half the cell width.\<close>

definition ex_grid :: grid where
  "ex_grid = \<lparr>extent = \<lparr>xmin = 0, ymin = 0, xmax = 2, ymax = 1\<rparr>, dx = 1, dy = 1\<rparr>"

definition ex_fine_grid :: grid where
  "ex_fine_grid = \<lparr>extent = \<lparr>xmin = 0, ymin = 0, xmax = 2, ymax = 1\<rparr>, dx = 1 / 2, dy = 1\<rparr>"

text \<open>A polygon over the whole extent, and one that lies outside of it.\<close>

definition ex_geom :: "box \<times> real list" where
  "ex_geom = (\<lparr>xmin = 0, ymin = 0, xmax = 2, ymax = 1\<rparr>, [1, 1])"

definition ex_far_geom :: "box \<times> real list" where
  "ex_far_geom = (\<lparr>xmin = 5, ymin = 5, xmax = 6, ymax = 6\<rparr>, [])"

text \<open>A polygon over the whole extent as it lies on the four cells of the finer grid.\<close>

definition ex_fine_geom :: "box \<times> real list" where
  "ex_fine_geom = (\<lparr>xmin = 0, ymin = 0, xmax = 2, ymax = 1\<rparr>, [1, 1, 1, 1])"

text \<open>A polygon over half of the first cell only.\<close>

definition ex_half_geom :: "box \<times> real list" where
  "ex_half_geom = (\<lparr>xmin = 0, ymin = 0, xmax = 1 / 2, ymax = 1\<rparr>, [1 / 2, 0])"

text \<open>A polygon around the two cells that covers nothing of either.\<close>

definition ex_hollow_geom :: "box \<times> real list" where
  "ex_hollow_geom = (\<lparr>xmin = -1, ymin = -1, xmax = 3, ymax = 2\<rparr>, [0, 0])"

text \<open>
  The accumulator with a quantile rule that goes linearly from the first to the last stored
  value, and a coarse root.
\<close>

definition ex_stats :: "stats_acc raster_stats" where
  "ex_stats =
     spec_raster_stats
       (\<lambda>m q. case m of [] \<Rightarrow> 0 | x # _ \<Rightarrow> fst x + q * (fst (last m) - fst x))
       (\<lambda>x. if x \<le> 0 then 0 else (x + 1) / 2)"


section \<open>Notions used to state the properties\<close>

text \<open>The cells a statistic contributes to a row; none for a name that is refused.\<close>

definition stat_values :: "'acc raster_stats \<Rightarrow> real list option \<Rightarrow> 'acc \<Rightarrow> string \<Rightarrow> dbl list" where
  "stat_values ops quantiles rs stat =
     (case stat_cells ops quantiles rs stat of Inl e \<Rightarrow> [] | Inr vs \<Rightarrow> vs)"

text \<open>The sub-grids whose coverage was computed, in the order of the calls.\<close>

fun coverage_calls :: "event list \<Rightarrow> grid list" where
  "coverage_calls [] = []"
| "coverage_calls (Coverage g # tr) = g # coverage_calls tr"
| "coverage_calls (e # tr) = coverage_calls tr"

text \<open>The windows of a call: the sub-grids of the cropped grid, none when the bounding box misses the grid.\<close>

definition windows_of ::
  "'geom collaborators \<Rightarrow> s4_raster \<Rightarrow> s4_raster option \<Rightarrow> 'geom \<Rightarrow> int \<Rightarrow> grid list" where
  "windows_of env rast weights geom max_cells_in_memory =
     (if intersects env (geos_get_box env geom) (extent (stats_grid env rast weights))
      then subdivide env (crop env (stats_grid env rast weights) (geos_get_box env geom))
             (nat max_cells_in_memory)
      else [])"

text \<open>The layer counts that line 211 lets pass.\<close>

definition layers_compatible :: "s4_raster \<Rightarrow> s4_raster option \<Rightarrow> bool" where
  "layers_compatible rast weights =
     (\<not> (weights \<noteq> None \<and> 1 < get_nlayers rast \<and> 1 < nweights_of weights \<and>
         get_nlayers rast \<noteq> nweights_of weights))"


text \<open>
  A raster made of \<open>n\<close> copies of the first layer of \<open>r\<close>: the single layer
  duplicated to match the layer count of the other side.
\<close>

definition duplicate_layer :: "nat \<Rightarrow> s4_raster \<Rightarrow> s4_raster" where
  "duplicate_layer n r =
     r\<lparr>get_nlayers := n, read_box := (\<lambda>default b i. read_box r default b 0)\<rparr>"

section \<open>Properties of the request validation and of the window loop\<close>

lemma validate_stats_result:
  "validate_stats rsv dis q stats (sv, n) = Inr (sv', n') \<Longrightarrow>
     n' = n + sum_list (map (stat_width q) stats) \<and> sv' = (sv \<or> (\<exists>s \<in> set stats. rsv s))"
proof (induction stats arbitrary: sv n)
  case Nil
  then show ?case by simp
next
  case (Cons stat stats)
  from Cons.prems have
    "validate_stats rsv dis q stats (sv \<or> rsv stat, n + stat_width q stat) = Inr (sv', n')"
    by (auto simp: Let_def stat_width_def split: if_splits option.splits)
  from Cons.IH [OF this] show ?case by auto
qed

lemma validate_stats_error:
  "validate_stats rsv dis q stats (sv, n) = Inl e \<Longrightarrow>
     e = CannotComputeCountSum \<or> e = QuantilesNotSpecified"
proof (induction stats arbitrary: sv n)
  case Nil
  then show ?case by simp
next
  case (Cons stat stats)
  then show ?case
    by (auto simp: Let_def split: if_splits option.splits)
qed

lemma validate_stats_ok:
  assumes "\<not> (dis \<and> (''count'' \<in> set stats \<or> ''sum'' \<in> set stats))"
    and "''quantile'' \<in> set stats \<longrightarrow> 0 < stat_width q ''quantile''"
  shows "\<exists>sv' n'. validate_stats rsv dis q stats (sv, n) = Inr (sv', n')"
  using assms
proof (induction stats arbitrary: sv n)
  case Nil
  then show ?case by simp
next
  case (Cons stat stats)
  then show ?case
    by (auto simp: Let_def stat_width_def split: option.splits)
qed

lemma validate_stats_disaggregated:
  assumes "dis" and "''count'' \<in> set stats \<or> ''sum'' \<in> set stats"
  shows "\<exists>e. validate_stats rsv dis q stats (sv, n) = Inl e"
  using assms
proof (induction stats arbitrary: sv n)
  case Nil
  then show ?case by simp
next
  case (Cons stat stats)
  then show ?case
    by (auto simp: Let_def split: option.splits)
qed

lemma validate_stats_count_sum:
  assumes "dis" and "''count'' \<in> set stats \<or> ''sum'' \<in> set stats"
    and "''quantile'' \<in> set stats \<longrightarrow> 0 < stat_width q ''quantile''"
  shows "validate_stats rsv dis q stats (sv, n) = Inl CannotComputeCountSum"
  using assms
proof (induction stats arbitrary: sv n)
  case Nil
  then show ?case by simp
next
  case (Cons stat stats)
  then show ?case
    by (auto simp: Let_def stat_width_def split: option.splits)
qed

lemma validate_stats_no_quantiles:
  assumes "''quantile'' \<in> set stats" and "stat_width q ''quantile'' = 0"
  shows "\<exists>e. validate_stats rsv dis q stats (sv, n) = Inl e"
  using assms
proof (induction stats arbitrary: sv n)
  case Nil
  then show ?case by simp
next
  case (Cons stat stats)
  then show ?case
    by (auto simp: Let_def stat_width_def split: option.splits)
qed

lemma validate_stats_quantiles_not_specified:
  assumes "''quantile'' \<in> set stats" and "stat_width q ''quantile'' = 0"
    and "\<not> (dis \<and> (''count'' \<in> set (takeWhile (\<lambda>s. s \<noteq> ''quantile'') stats) \<or>
                    ''sum'' \<in> set (takeWhile (\<lambda>s. s \<noteq> ''quantile'') stats)))"
  shows "validate_stats rsv dis q stats (sv, n) = Inl QuantilesNotSpecified"
  using assms
proof (induction stats arbitrary: sv n)
  case Nil
  then show ?case by simp
next
  case (Cons stat stats)
  then show ?case
    by (auto simp: Let_def stat_width_def split: option.splits)
qed

lemma length_process_both:
  "length (process_both ops cov vs ws i rss) = length rss"
  by (simp add: process_both_def)

lemma fold_pair_snd:
  "snd (fold (\<lambda>i (tr, rss). (f i tr, g i rss)) xs st) = fold g xs (snd st)"
  by (induction xs arbitrary: st) (auto simp: case_prod_beta)

lemma fold_pair_fst:
  "fst (fold (\<lambda>i (tr, rss). (f i tr, g i rss)) xs st) = fold f xs (fst st)"
  by (induction xs arbitrary: st) (auto simp: case_prod_beta)

lemma length_fold_update:
  "(\<And>i rss. length (g i rss) = length rss) \<Longrightarrow> length (fold g xs rss) = length rss"
  by (induction xs arbitrary: rss) auto

lemma length_process_window:
  "length (snd (process_window ops rast dv weights dw cov st)) = length (snd st)"
  by (simp add: process_window_def Let_def fold_pair_snd length_fold_update length_process_both
      split: option.splits)

lemma process_subgrids_length:
  "process_subgrids env ops rast dv weights dw geom gs st = (tr, Inr rss) \<Longrightarrow>
     length rss = length (snd st)"
proof (induction gs arbitrary: st)
  case Nil
  then show ?case by (cases st) simp
next
  case (Cons g gs)
  then show ?case
    by (cases st) (auto simp: length_process_window split: option.splits if_splits)
qed

lemma process_subgrids_error:
  "process_subgrids env ops rast dv weights dw geom gs st = (tr, Inl e) \<Longrightarrow> e = CoverageError"
proof (induction gs arbitrary: st)
  case Nil
  then show ?case by (cases st) simp
next
  case (Cons g gs)
  then show ?case
    by (cases st) (auto split: option.splits if_splits)
qed

lemma process_subgrids_ok:
  "\<forall>g \<in> set gs. raster_cell_intersection env g geom \<noteq> None \<Longrightarrow>
     \<exists>tr rss. process_subgrids env ops rast dv weights dw geom gs st = (tr, Inr rss)"
proof (induction gs arbitrary: st)
  case Nil
  then show ?case by (cases st) simp
next
  case (Cons g gs)
  then show ?case
    by (cases st) (auto split: option.splits if_splits)
qed

lemma run_windows_eq:
  "run_windows env ops rast dv weights dw geom mc rss0 =
     process_subgrids env ops rast dv weights dw geom (windows_of env rast weights geom mc) ([], rss0)"
  by (simp add: run_windows_def windows_of_def Let_def)

lemma coverage_calls_append:
  "coverage_calls (a @ b) = coverage_calls a @ coverage_calls b"
  by (induction a rule: coverage_calls.induct) auto

lemma coverage_calls_fold:
  "(\<And>i tr. coverage_calls (f i tr) = coverage_calls tr) \<Longrightarrow>
     coverage_calls (fold f xs tr) = coverage_calls tr"
  by (induction xs arbitrary: tr) auto

lemma coverage_calls_process_window:
  "coverage_calls (fst (process_window ops rast dv weights dw cov st)) = coverage_calls (fst st)"
  by (simp add: process_window_def Let_def fold_pair_fst coverage_calls_fold coverage_calls_append
      split: option.splits)

lemma process_subgrids_coverage_calls:
  "process_subgrids env ops rast dv weights dw geom gs st = (tr, Inr rss) \<Longrightarrow>
     coverage_calls tr = coverage_calls (fst st) @ gs"
proof (induction gs arbitrary: st)
  case Nil
  then show ?case by (cases st) auto
next
  case (Cons g gs)
  obtain tr0 rss0 where st: "st = (tr0, rss0)" by (cases st)
  from Cons.prems st obtain cov where
    cov: "raster_cell_intersection env g geom = Some cov"
    by (auto split: option.splits)
  let ?st' = "if \<not> grid_empty env (rgrid cov)
              then process_window ops rast dv weights dw cov (tr0 @ [Coverage g], rss0)
              else (tr0 @ [Coverage g], rss0)"
  from Cons.prems st cov have
    "process_subgrids env ops rast dv weights dw geom gs ?st' = (tr, Inr rss)"
    by simp
  from Cons.IH [OF this] show ?case
    by (simp add: st coverage_calls_process_window coverage_calls_append)
qed

lemma stat_cells_supported:
  "stat \<in> set supported_stats \<Longrightarrow>
     stat_cells ops q rs stat = Inr (stat_values ops q rs stat) \<and>
     length (stat_values ops q rs stat) = stat_width q stat"
  by (auto simp: supported_stats_def stat_values_def stat_cells_def stat_width_def
      split: option.splits)

lemma stat_cells_unsupported:
  "stat \<notin> set supported_stats \<Longrightarrow> stat_cells ops q rs stat = Inl (UnknownStat stat)"
  by (simp add: supported_stats_def stat_cells_def)

lemma stat_row_ok:
  "set stats \<subseteq> set supported_stats \<Longrightarrow>
     stat_row ops q rs stats = Inr (concat (map (stat_values ops q rs) stats))"
  by (induction stats) (auto simp: stat_cells_supported)

lemma stat_row_unknown:
  "find (\<lambda>s. s \<notin> set supported_stats) stats = Some s \<Longrightarrow>
     stat_row ops q rs stats = Inl (UnknownStat s)"
proof (induction stats)
  case Nil
  then show ?case by simp
next
  case (Cons stat stats)
  show ?case
  proof (cases "stat \<in> set supported_stats")
    case True
    with Cons show ?thesis by (simp add: stat_cells_supported)
  next
    case False
    with Cons.prems show ?thesis by (simp add: stat_cells_unsupported)
  qed
qed

lemma find_unsupported:
  "\<not> set stats \<subseteq> set supported_stats \<Longrightarrow> \<exists>s. find (\<lambda>s. s \<notin> set supported_stats) stats = Some s"
  by (cases "find (\<lambda>s. s \<notin> set supported_stats) stats") (auto simp: find_None_iff)

lemma stat_row_Inr:
  assumes "stat_row ops q rs stats = Inr row"
  shows "set stats \<subseteq> set supported_stats \<and> row = concat (map (stat_values ops q rs) stats)"
proof (cases "set stats \<subseteq> set supported_stats")
  case True
  with assms show ?thesis by (simp add: stat_row_ok)
next
  case False
  from find_unsupported [OF this] obtain s where
    "find (\<lambda>s. s \<notin> set supported_stats) stats = Some s" ..
  from stat_row_unknown [OF this, of ops q rs] assms show ?thesis by simp
qed

lemma stat_rows_ok:
  "set stats \<subseteq> set supported_stats \<Longrightarrow>
     stat_rows ops q stats rss = Inr (map (\<lambda>rs. concat (map (stat_values ops q rs) stats)) rss)"
  by (induction rss) (auto simp: stat_row_ok)

lemma stat_rows_Inr:
  "stat_rows ops q stats rss = Inr rows \<Longrightarrow>
     rows = map (\<lambda>rs. concat (map (stat_values ops q rs) stats)) rss"
proof (induction rss arbitrary: rows)
  case Nil
  then show ?case by simp
next
  case (Cons rs rss)
  then show ?case
    by (auto split: sum.splits dest: stat_row_Inr)
qed

lemma stat_rows_unknown:
  "rss \<noteq> [] \<Longrightarrow> find (\<lambda>s. s \<notin> set supported_stats) stats = Some s \<Longrightarrow>
     stat_rows ops q stats rss = Inl (UnknownStat s)"
  by (cases rss) (auto simp: stat_row_unknown)

lemma stat_rows_error:
  "stat_rows ops q stats rss = Inl e \<Longrightarrow> \<exists>s. e = UnknownStat s"
proof (cases "set stats \<subseteq> set supported_stats")
  case True
  assume "stat_rows ops q stats rss = Inl e"
  with True show ?thesis by (simp add: stat_rows_ok)
next
  case False
  assume e: "stat_rows ops q stats rss = Inl e"
  from find_unsupported [OF False] obtain s where
    s: "find (\<lambda>s. s \<notin> set supported_stats) stats = Some s" ..
  show ?thesis
  proof (cases rss)
    case Nil
    with e show ?thesis by simp
  next
    case (Cons a list)
    then have "rss \<noteq> []" by simp
    from stat_rows_unknown [OF this s, of ops q] e show ?thesis by auto
  qed
qed

lemma length_stat_row:
  "set stats \<subseteq> set supported_stats \<Longrightarrow>
     length (concat (map (stat_values ops q rs) stats)) = sum_list (map (stat_width q) stats)"
  by (induction stats) (auto simp: stat_cells_supported)

lemma CPP_stats_checked:
  assumes "1 \<le> mc" and "layers_compatible rast weights" and "read_wkb env wkb = Some geom"
    and "validate_stats (requires_stored_values env) (disaggregated env rast weights) q stats
           (False, 0) = Inr (sv, n)"
  shows "CPP_stats env ops rast weights wkb dv dw stats mc q =
     (case run_windows env ops rast dv weights dw geom mc
             (replicate (max (get_nlayers rast) (nweights_of weights)) (rs_new ops sv)) of
        (tr, Inl e) \<Rightarrow> (tr, Inl e)
      | (tr, Inr rss) \<Rightarrow>
          (case stat_rows ops q stats rss of
             Inl e \<Rightarrow> (tr, Inl e)
           | Inr rows \<Rightarrow>
               (tr, Inr \<lparr>nrow = max (get_nlayers rast) (nweights_of weights), ncol = n,
                         cells = rows\<rparr>)))"
  using assms by (auto simp: CPP_stats_def layers_compatible_def Let_def)

lemma CPP_stats_unchecked:
  assumes "mc < 1 \<or> \<not> layers_compatible rast weights \<or> read_wkb env wkb = None \<or>
     (\<exists>e. validate_stats (requires_stored_values env) (disaggregated env rast weights) q stats
           (False, 0) = Inl e)"
  shows "\<exists>e. CPP_stats env ops rast weights wkb dv dw stats mc q = ([], Inl e)"
  using assms by (auto simp: CPP_stats_def layers_compatible_def Let_def split: option.splits)

lemma CPP_stats_InrE:
  assumes "CPP_stats env ops rast weights wkb dv dw stats mc q = (tr, Inr m)"
  obtains geom sv rss where
    "1 \<le> mc" and "layers_compatible rast weights" and "read_wkb env wkb = Some geom"
    and "validate_stats (requires_stored_values env) (disaggregated env rast weights) q stats
           (False, 0) = Inr (sv, ncol m)"
    and "run_windows env ops rast dv weights dw geom mc
           (replicate (max (get_nlayers rast) (nweights_of weights)) (rs_new ops sv)) = (tr, Inr rss)"
    and "stat_rows ops q stats rss = Inr (cells m)"
    and "nrow m = max (get_nlayers rast) (nweights_of weights)"
proof -
  from assms have mc: "1 \<le> mc"
    by (auto simp: CPP_stats_def split: if_splits)
  from assms mc have lc: "layers_compatible rast weights"
    by (auto simp: CPP_stats_def layers_compatible_def Let_def split: if_splits)
  from assms mc lc obtain geom where geom: "read_wkb env wkb = Some geom"
    by (cases "read_wkb env wkb") (auto simp: CPP_stats_def layers_compatible_def Let_def)
  from assms mc lc geom obtain sv n where
    v: "validate_stats (requires_stored_values env) (disaggregated env rast weights) q stats
           (False, 0) = Inr (sv, n)"
    by (cases "validate_stats (requires_stored_values env) (disaggregated env rast weights) q stats
           (False, 0)") (auto simp: CPP_stats_def layers_compatible_def Let_def)
  note eq = CPP_stats_checked [OF mc lc geom v, of ops dv dw]
  from assms eq obtain rss where
    rw: "run_windows env ops rast dv weights dw geom mc
           (replicate (max (get_nlayers rast) (nweights_of weights)) (rs_new ops sv)) = (tr, Inr rss)"
    by (auto split: prod.splits sum.splits)
  from assms eq rw obtain rows where
    rows: "stat_rows ops q stats rss = Inr rows"
      and m: "m = \<lparr>nrow = max (get_nlayers rast) (nweights_of weights), ncol = n, cells = rows\<rparr>"
    by (auto split: sum.splits)
  from m v have v': "validate_stats (requires_stored_values env) (disaggregated env rast weights) q stats
           (False, 0) = Inr (sv, ncol m)" by simp
  from m rows have rows': "stat_rows ops q stats rss = Inr (cells m)" by simp
  from m have "nrow m = max (get_nlayers rast) (nweights_of weights)" by simp
  with that mc lc geom v' rw rows' show thesis by blast
qed

lemma CPP_stats_InlE:
  assumes "CPP_stats env ops rast weights wkb dv dw stats mc q = (tr, Inl e)"
  shows "e = InvalidMaxCells mc \<and> mc < 1 \<or> e = IncompatibleLayers \<or> e = GeometryError \<or>
         e = CannotComputeCountSum \<or> e = QuantilesNotSpecified \<or> e = CoverageError \<or>
         (\<exists>s. e = UnknownStat s)"
proof (cases "mc < 1 \<or> \<not> layers_compatible rast weights \<or> read_wkb env wkb = None")
  case True
  with assms show ?thesis
    by (auto simp: CPP_stats_def layers_compatible_def Let_def split: if_splits)
next
  case False
  then obtain geom where g: "1 \<le> mc" "layers_compatible rast weights" "read_wkb env wkb = Some geom"
    by auto
  show ?thesis
  proof (cases "validate_stats (requires_stored_values env) (disaggregated env rast weights) q stats
           (False, 0)")
    case (Inl e')
    with assms g have "e = e'"
      by (auto simp: CPP_stats_def layers_compatible_def Let_def)
    with validate_stats_error [OF Inl] show ?thesis by auto
  next
    case (Inr p)
    obtain sv n where p: "p = (sv, n)" by (cases p)
    note eq = CPP_stats_checked [OF g Inr [unfolded p], of ops dv dw]
    from assms eq show ?thesis
      by (auto simp: run_windows_eq split: prod.splits sum.splits
          dest: process_subgrids_error stat_rows_error)
  qed
qed

lemma run_windows_length:
  "run_windows env ops rast dv weights dw geom mc rss0 = (tr, Inr rss) \<Longrightarrow>
     length rss = length rss0"
  by (auto simp: run_windows_eq dest: process_subgrids_length)

lemma run_windows_ok:
  "\<forall>g \<in> set (windows_of env rast weights geom mc). raster_cell_intersection env g geom \<noteq> None \<Longrightarrow>
     \<exists>tr rss. run_windows env ops rast dv weights dw geom mc rss0 = (tr, Inr rss)"
  by (simp add: run_windows_eq process_subgrids_ok)

lemma run_windows_coverage_calls:
  "run_windows env ops rast dv weights dw geom mc rss0 = (tr, Inr rss) \<Longrightarrow>
     coverage_calls tr = windows_of env rast weights geom mc"
  by (auto simp: run_windows_eq dest: process_subgrids_coverage_calls)

lemma validate_stats_passes:
  assumes "\<not> (dis \<and> (''count'' \<in> set stats \<or> ''sum'' \<in> set stats))"
    and "''quantile'' \<in> set stats \<longrightarrow> q \<noteq> None \<and> q \<noteq> Some []"
  shows "validate_stats rsv dis q stats (False, 0) =
           Inr (\<exists>s \<in> set stats. rsv s, sum_list (map (stat_width q) stats))"
proof -
  from assms(2) have "''quantile'' \<in> set stats \<longrightarrow> 0 < stat_width q ''quantile''"
    by (auto simp: stat_width_def split: option.splits)
  from validate_stats_ok [OF assms(1) this, of rsv False 0] obtain sv' n' where
    v: "validate_stats rsv dis q stats (False, 0) = Inr (sv', n')" by blast
  from validate_stats_result [OF v] v show ?thesis by simp
qed

lemma CPP_stats_succeeds:
  assumes "1 \<le> mc"
    and "layers_compatible rast weights"
    and "read_wkb env wkb = Some geom"
    and "\<not> (disaggregated env rast weights \<and> (''count'' \<in> set stats \<or> ''sum'' \<in> set stats))"
    and "''quantile'' \<in> set stats \<longrightarrow> q \<noteq> None \<and> q \<noteq> Some []"
    and "\<forall>g \<in> set (windows_of env rast weights geom mc).
           raster_cell_intersection env g geom \<noteq> None"
    and "set stats \<subseteq> set supported_stats"
  shows "\<exists>tr rss. CPP_stats env ops rast weights wkb dv dw stats mc q =
           (tr, Inr \<lparr>nrow = max (get_nlayers rast) (nweights_of weights),
                     ncol = sum_list (map (stat_width q) stats),
                     cells = map (\<lambda>rs. concat (map (stat_values ops q rs) stats)) rss\<rparr>)"
proof -
  let ?sv = "\<exists>s \<in> set stats. requires_stored_values env s"
  let ?rss0 = "replicate (max (get_nlayers rast) (nweights_of weights)) (rs_new ops ?sv)"
  note v = validate_stats_passes [OF assms(4,5), of "requires_stored_values env"]
  from run_windows_ok [OF assms(6), of ops dv dw ?rss0] obtain tr rss where
    rw: "run_windows env ops rast dv weights dw geom mc ?rss0 = (tr, Inr rss)" by blast
  from CPP_stats_checked [OF assms(1-3) v, of ops dv dw] rw stat_rows_ok [OF assms(7), of ops q rss]
  show ?thesis by auto
qed

text \<open>The definitions to unfold when the model is run in the small setting.\<close>

lemmas ex_setting =
  ex_env_def ex_raster_def ex_grid_def ex_fine_grid_def ex_geom_def ex_far_geom_def
  ex_fine_geom_def ex_hollow_geom_def ex_half_geom_def
  ex_stats_def box_intersection_def spec_requires_stored_values_def

lemmas ex_run =
  CPP_stats_def nweights_of_def disaggregated_def stats_grid_def run_windows_def
  process_window_def process_both_def stat_cells_def value_or_NA_def Let_def

lemmas ex_acc =
  spec_raster_stats_def acc_new_def acc_process_def acc_process_weighted_def acc_cell_def
  when_counted_def acc_mean_def acc_optional_def acc_weighted_mean_def
  acc_variance_value_def acc_coefficient_of_variation_def

section \<open>The limit on the cells held in memory\<close>

text \<open>
  C8: a call with \<^verbatim>\<open>max_cells_in_memory < 1\<close> ends with the error
  \<^verbatim>\<open>Invalid value for max_cells_in_memory\<close> and an empty log: no sub-grid was
  produced, no coverage computed and no raster read. With a limit of 1 or more this error
  is never raised.
\<close>

theorem CPP_stats_max_cells:
  "(max_cells_in_memory < 1 \<longrightarrow>
      CPP_stats env ops rast weights wkb default_value default_weight stats
        max_cells_in_memory quantiles = ([], Inl (InvalidMaxCells max_cells_in_memory))) \<and>
   (1 \<le> max_cells_in_memory \<longrightarrow>
      (\<forall>k. snd (CPP_stats env ops rast weights wkb default_value default_weight stats
                  max_cells_in_memory quantiles) \<noteq> Inl (InvalidMaxCells k)))"
proof (intro conjI impI allI)
  assume "max_cells_in_memory < 1"
  then show "CPP_stats env ops rast weights wkb default_value default_weight stats
        max_cells_in_memory quantiles = ([], Inl (InvalidMaxCells max_cells_in_memory))"
    by (simp add: CPP_stats_def)
next
  fix k
  assume ok: "1 \<le> max_cells_in_memory"
  show "snd (CPP_stats env ops rast weights wkb default_value default_weight stats
                  max_cells_in_memory quantiles) \<noteq> Inl (InvalidMaxCells k)"
  proof
    assume "snd (CPP_stats env ops rast weights wkb default_value default_weight stats
                  max_cells_in_memory quantiles) = Inl (InvalidMaxCells k)"
    then obtain tr where
      "CPP_stats env ops rast weights wkb default_value default_weight stats
                  max_cells_in_memory quantiles = (tr, Inl (InvalidMaxCells k))"
      by (cases "CPP_stats env ops rast weights wkb default_value default_weight stats
                  max_cells_in_memory quantiles") simp
    from CPP_stats_InlE [OF this] ok show False by auto
  qed
qed

theorem CPP_stats_max_cells_witness:
  "(0::int) < 1 \<and>
   CPP_stats (ex_env ex_geom) ex_stats (ex_raster ex_grid [[3, 5]]) None [1] 0 0 [''mean''] 0 None
     = ([], Inl (InvalidMaxCells 0)) \<and>
   (1::int) \<le> 100 \<and>
   (\<forall>k. snd (CPP_stats (ex_env ex_geom) ex_stats (ex_raster ex_grid [[3, 5]]) None [1] 0 0
               [''mean''] 100 None) \<noteq> Inl (InvalidMaxCells k))"
  using CPP_stats_max_cells [where max_cells_in_memory = 0 and env = "ex_env ex_geom"
      and ops = ex_stats and rast = "ex_raster ex_grid [[3, 5]]" and weights = None
      and wkb = "[1]" and default_value = 0 and default_weight = 0 and stats = "[''mean'']"
      and quantiles = None]
    CPP_stats_max_cells [where max_cells_in_memory = 100 and env = "ex_env ex_geom"
      and ops = ex_stats and rast = "ex_raster ex_grid [[3, 5]]" and weights = None
      and wkb = "[1]" and default_value = 0 and default_weight = 0 and stats = "[''mean'']"
      and quantiles = None]
  by simp

section \<open>Layer counts and the rows of the matrix\<close>

text \<open>
  C4: when the value raster and the weighting raster both have more than one layer and the
  counts differ, the call ends with a configuration error and an empty log; every matrix
  that is returned has \<open>max nlayers nweights\<close> rows, all of them filled.
\<close>

theorem CPP_stats_layer_pairing:
  "(weights = Some w \<and> 1 < get_nlayers rast \<and> 1 < get_nlayers w \<and>
    get_nlayers rast \<noteq> get_nlayers w \<longrightarrow>
      (\<exists>e. CPP_stats env ops rast weights wkb default_value default_weight stats
              max_cells_in_memory quantiles = ([], Inl e) \<and> is_configuration_error e)) \<and>
   (\<forall>m. snd (CPP_stats env ops rast weights wkb default_value default_weight stats
               max_cells_in_memory quantiles) = Inr m \<longrightarrow>
      nrow m = max (get_nlayers rast) (nweights_of weights) \<and> length (cells m) = nrow m)"
proof (rule conjI; intro allI impI)
  assume "weights = Some w \<and> 1 < get_nlayers rast \<and> 1 < get_nlayers w \<and>
    get_nlayers rast \<noteq> get_nlayers w"
  then show "\<exists>e. CPP_stats env ops rast weights wkb default_value default_weight stats
              max_cells_in_memory quantiles = ([], Inl e) \<and> is_configuration_error e"
    by (cases "max_cells_in_memory < 1") (simp_all add: CPP_stats_def nweights_of_def)
next
  fix m
  assume "snd (CPP_stats env ops rast weights wkb default_value default_weight stats
               max_cells_in_memory quantiles) = Inr m"
  then obtain tr where
    "CPP_stats env ops rast weights wkb default_value default_weight stats
               max_cells_in_memory quantiles = (tr, Inr m)"
    by (cases "CPP_stats env ops rast weights wkb default_value default_weight stats
               max_cells_in_memory quantiles") simp
  then obtain geom sv rss where
    rw: "run_windows env ops rast default_value weights default_weight geom max_cells_in_memory
           (replicate (max (get_nlayers rast) (nweights_of weights)) (rs_new ops sv)) = (tr, Inr rss)"
    and rows: "stat_rows ops quantiles stats rss = Inr (cells m)"
    and n: "nrow m = max (get_nlayers rast) (nweights_of weights)"
    by (elim CPP_stats_InrE) blast
  from run_windows_length [OF rw] have "length rss = max (get_nlayers rast) (nweights_of weights)"
    by simp
  with stat_rows_Inr [OF rows] n
  show "nrow m = max (get_nlayers rast) (nweights_of weights) \<and> length (cells m) = nrow m"
    by simp
qed


theorem CPP_stats_layer_pairing_witness:
  "(\<exists>e. CPP_stats (ex_env ex_geom) ex_stats (ex_raster ex_grid [[3, 5], [1, 2]])
          (Some (ex_raster ex_grid [[1, 3], [1, 1], [2, 2]])) [1] 0 0 [''mean''] 100 None
        = ([], Inl e) \<and> is_configuration_error e) \<and>
   (\<exists>m. snd (CPP_stats (ex_env ex_geom) ex_stats (ex_raster ex_grid [[3, 5], [1, 2], [4, 4]])
               (Some (ex_raster ex_grid [[1, 3]])) [1] 0 0 [''mean''] 100 None) = Inr m \<and>
        nrow m = 3 \<and> length (cells m) = 3)"
proof -
  have run: "snd (CPP_stats (ex_env ex_geom) ex_stats (ex_raster ex_grid [[3, 5], [1, 2], [4, 4]])
               (Some (ex_raster ex_grid [[1, 3]])) [1] 0 0 [''mean''] 100 None)
             = Inr \<lparr>nrow = 3, ncol = 1, cells = [[Dbl 4], [Dbl (3 / 2)], [Dbl 4]]\<rparr>"
    by (simp add: ex_setting ex_run ex_acc)
  have layers: "Some (ex_raster ex_grid [[1, 3], [1, 1], [2, 2]])
                  = Some (ex_raster ex_grid [[1, 3], [1, 1], [2, 2]]) \<and>
                1 < get_nlayers (ex_raster ex_grid [[3, 5], [1, 2]]) \<and>
                1 < get_nlayers (ex_raster ex_grid [[1, 3], [1, 1], [2, 2]]) \<and>
                get_nlayers (ex_raster ex_grid [[3, 5], [1, 2]])
                  \<noteq> get_nlayers (ex_raster ex_grid [[1, 3], [1, 1], [2, 2]])"
    by (simp add: ex_raster_def)
  from layers CPP_stats_layer_pairing [where weights = "Some (ex_raster ex_grid [[1, 3], [1, 1], [2, 2]])"
      and w = "ex_raster ex_grid [[1, 3], [1, 1], [2, 2]]"
      and rast = "ex_raster ex_grid [[3, 5], [1, 2]]" and env = "ex_env ex_geom"
      and ops = ex_stats and wkb = "[1]" and default_value = 0 and default_weight = 0
      and stats = "[''mean'']" and max_cells_in_memory = 100 and quantiles = None]
  have first: "\<exists>e. CPP_stats (ex_env ex_geom) ex_stats (ex_raster ex_grid [[3, 5], [1, 2]])
          (Some (ex_raster ex_grid [[1, 3], [1, 1], [2, 2]])) [1] 0 0 [''mean''] 100 None
        = ([], Inl e) \<and> is_configuration_error e"
    by blast
  from run CPP_stats_layer_pairing [where weights = "Some (ex_raster ex_grid [[1, 3]])"
      and w = "ex_raster ex_grid [[1, 3]]"
      and rast = "ex_raster ex_grid [[3, 5], [1, 2], [4, 4]]" and env = "ex_env ex_geom"
      and ops = ex_stats and wkb = "[1]" and default_value = 0 and default_weight = 0
      and stats = "[''mean'']" and max_cells_in_memory = 100 and quantiles = None]
  have "nrow \<lparr>nrow = 3, ncol = 1, cells = [[Dbl 4], [Dbl (3 / 2)], [Dbl 4]]\<rparr>
          = max (get_nlayers (ex_raster ex_grid [[3, 5], [1, 2], [4, 4]]))
                (nweights_of (Some (ex_raster ex_grid [[1, 3]])))"
    by simp
  with run first show ?thesis by simp
qed

section \<open>Unknown statistic names\<close>

text \<open>
  C1 says that an unknown statistic name is refused when the request is validated, before
  any window is processed. The loop of lines 228-252 does not look for unknown names; the
  only place that refuses one is the last branch of the chain of line 342, reached when the
  rows are filled. The run below has processed its window when the name is refused.
\<close>

theorem unknown_stat_found_late_counterexample:
  "CPP_stats (ex_env ex_geom) ex_stats (ex_raster ex_grid [[3, 5]]) None [1] 0 0
     [''bogus''] 100 None
   = ([Coverage ex_grid, ReadValues (extent ex_grid) 0, Process 0],
      Inl (UnknownStat ''bogus''))"
  by (simp add: ex_setting ex_run ex_acc supported_stats_def)

text \<open>
  C1 as the code has it: when the request passes the checks made up front, no coverage
  computation fails and the matrix has at least one row, a request with an unknown name
  ends with \<^verbatim>\<open>Unknown stat\<close> for the first such name, after the coverage of every
  window has been computed.
\<close>

theorem CPP_stats_unknown_stat:
  assumes "1 \<le> max_cells_in_memory"
    and "layers_compatible rast weights"
    and "read_wkb env wkb = Some geom"
    and "\<not> (disaggregated env rast weights \<and> (''count'' \<in> set stats \<or> ''sum'' \<in> set stats))"
    and "''quantile'' \<in> set stats \<longrightarrow> quantiles \<noteq> None \<and> quantiles \<noteq> Some []"
    and "\<forall>g \<in> set (windows_of env rast weights geom max_cells_in_memory).
           raster_cell_intersection env g geom \<noteq> None"
    and "0 < max (get_nlayers rast) (nweights_of weights)"
    and "find (\<lambda>s. s \<notin> set supported_stats) stats = Some s"
  shows "snd (CPP_stats env ops rast weights wkb default_value default_weight stats
                max_cells_in_memory quantiles) = Inl (UnknownStat s) \<and>
         coverage_calls (fst (CPP_stats env ops rast weights wkb default_value default_weight stats
                                max_cells_in_memory quantiles))
           = windows_of env rast weights geom max_cells_in_memory"
proof -
  let ?sv = "\<exists>s \<in> set stats. requires_stored_values env s"
  let ?rss0 = "replicate (max (get_nlayers rast) (nweights_of weights)) (rs_new ops ?sv)"
  note v = validate_stats_passes [OF assms(4,5), of "requires_stored_values env"]
  from run_windows_ok [OF assms(6), of ops default_value default_weight ?rss0] obtain tr rss where
    rw: "run_windows env ops rast default_value weights default_weight geom max_cells_in_memory
           ?rss0 = (tr, Inr rss)" by blast
  from run_windows_length [OF rw] assms(7) have "rss \<noteq> []" by auto
  from stat_rows_unknown [OF this assms(8), of ops quantiles] have
    rows: "stat_rows ops quantiles stats rss = Inl (UnknownStat s)" .
  from CPP_stats_checked [OF assms(1-3) v, of ops default_value default_weight] rw rows
  have "CPP_stats env ops rast weights wkb default_value default_weight stats
          max_cells_in_memory quantiles = (tr, Inl (UnknownStat s))"
    by simp
  with run_windows_coverage_calls [OF rw] show ?thesis by simp
qed

theorem CPP_stats_unknown_stat_witness:
  "snd (CPP_stats (ex_env ex_geom) ex_stats (ex_raster ex_grid [[3, 5]]) None [1] 0 0
          [''mean'', ''bogus'', ''sum'', ''nonsense''] 100 None) = Inl (UnknownStat ''bogus'') \<and>
   coverage_calls (fst (CPP_stats (ex_env ex_geom) ex_stats (ex_raster ex_grid [[3, 5]]) None [1] 0 0
          [''mean'', ''bogus'', ''sum'', ''nonsense''] 100 None)) = [ex_grid]"
proof -
  have w: "windows_of (ex_env ex_geom) (ex_raster ex_grid [[3, 5]]) None ex_geom 100 = [ex_grid]"
    by (simp add: windows_of_def stats_grid_def ex_setting)
  have "snd (CPP_stats (ex_env ex_geom) ex_stats (ex_raster ex_grid [[3, 5]]) None [1] 0 0
          [''mean'', ''bogus'', ''sum'', ''nonsense''] 100 None) = Inl (UnknownStat ''bogus'') \<and>
        coverage_calls (fst (CPP_stats (ex_env ex_geom) ex_stats (ex_raster ex_grid [[3, 5]]) None [1] 0 0
          [''mean'', ''bogus'', ''sum'', ''nonsense''] 100 None))
        = windows_of (ex_env ex_geom) (ex_raster ex_grid [[3, 5]]) None ex_geom 100"
  proof (rule CPP_stats_unknown_stat)
    show "(1::int) \<le> 100" by simp
    show "layers_compatible (ex_raster ex_grid [[3, 5]]) None"
      by (simp add: layers_compatible_def)
    show "read_wkb (ex_env ex_geom) [1] = Some ex_geom"
      by (simp add: ex_env_def)
    show "\<not> (disaggregated (ex_env ex_geom) (ex_raster ex_grid [[3, 5]]) None \<and>
             (''count'' \<in> set [''mean'', ''bogus'', ''sum'', ''nonsense''] \<or>
              ''sum'' \<in> set [''mean'', ''bogus'', ''sum'', ''nonsense'']))"
      by (simp add: disaggregated_def stats_grid_def)
    show "''quantile'' \<in> set [''mean'', ''bogus'', ''sum'', ''nonsense''] \<longrightarrow>
            (None :: real list option) \<noteq> None \<and> None \<noteq> Some ([] :: real list)"
      by simp
    show "\<forall>g \<in> set (windows_of (ex_env ex_geom) (ex_raster ex_grid [[3, 5]]) None ex_geom 100).
            raster_cell_intersection (ex_env ex_geom) g ex_geom \<noteq> None"
      by (simp add: ex_env_def)
    show "0 < max (get_nlayers (ex_raster ex_grid [[3, 5]])) (nweights_of None)"
      by (simp add: ex_raster_def)
    show "find (\<lambda>s. s \<notin> set supported_stats) [''mean'', ''bogus'', ''sum'', ''nonsense'']
            = Some ''bogus''"
      by (simp add: supported_stats_def)
  qed
  with w show ?thesis by simp
qed

section \<open>Disaggregation of the value raster\<close>

text \<open>
  C3: let the common grid be finer than the grid of the value raster. A request that names
  \<^verbatim>\<open>count\<close> or \<^verbatim>\<open>sum\<close> ends with an error and an empty log, so before any
  window is processed; the error is the one of line 233 when the checks made before it
  pass. On the same rasters the request for \<^verbatim>\<open>mean\<close> alone returns a matrix, the
  limit and the layer counts being valid and the collaborators not failing.
\<close>

theorem CPP_stats_disaggregation:
  assumes "disaggregated env rast weights"
  shows "(''count'' \<in> set stats \<or> ''sum'' \<in> set stats \<longrightarrow>
            (\<exists>e. CPP_stats env ops rast weights wkb default_value default_weight stats
                    max_cells_in_memory quantiles = ([], Inl e)) \<and>
            (1 \<le> max_cells_in_memory \<and> layers_compatible rast weights \<and>
             read_wkb env wkb \<noteq> None \<and>
             (''quantile'' \<in> set stats \<longrightarrow> quantiles \<noteq> None \<and> quantiles \<noteq> Some []) \<longrightarrow>
               CPP_stats env ops rast weights wkb default_value default_weight stats
                 max_cells_in_memory quantiles = ([], Inl CannotComputeCountSum))) \<and>
         (1 \<le> max_cells_in_memory \<and> layers_compatible rast weights \<and>
          (\<exists>geom. read_wkb env wkb = Some geom \<and>
             (\<forall>g \<in> set (windows_of env rast weights geom max_cells_in_memory).
                raster_cell_intersection env g geom \<noteq> None)) \<longrightarrow>
            (\<exists>tr m. CPP_stats env ops rast weights wkb default_value default_weight [''mean'']
                       max_cells_in_memory quantiles = (tr, Inr m) \<and>
                     nrow m = max (get_nlayers rast) (nweights_of weights) \<and> ncol m = 1))"
proof (rule conjI; rule impI)
  assume cs: "''count'' \<in> set stats \<or> ''sum'' \<in> set stats"
  from validate_stats_disaggregated [OF assms cs] have
    "\<exists>e. validate_stats (requires_stored_values env) (disaggregated env rast weights) quantiles
            stats (False, 0) = Inl e" .
  then have first: "\<exists>e. CPP_stats env ops rast weights wkb default_value default_weight stats
                    max_cells_in_memory quantiles = ([], Inl e)"
    by (intro CPP_stats_unchecked) blast
  have second: "CPP_stats env ops rast weights wkb default_value default_weight stats
                 max_cells_in_memory quantiles = ([], Inl CannotComputeCountSum)"
    if ok: "1 \<le> max_cells_in_memory \<and> layers_compatible rast weights \<and>
             read_wkb env wkb \<noteq> None \<and>
             (''quantile'' \<in> set stats \<longrightarrow> quantiles \<noteq> None \<and> quantiles \<noteq> Some [])"
  proof -
    from ok have "''quantile'' \<in> set stats \<longrightarrow> 0 < stat_width quantiles ''quantile''"
      by (auto simp: stat_width_def split: option.splits)
    from validate_stats_count_sum [OF assms cs this, of "requires_stored_values env" False 0] ok
    show ?thesis
      by (auto simp: CPP_stats_def layers_compatible_def Let_def)
  qed
  from first second
  show "(\<exists>e. CPP_stats env ops rast weights wkb default_value default_weight stats
                    max_cells_in_memory quantiles = ([], Inl e)) \<and>
            (1 \<le> max_cells_in_memory \<and> layers_compatible rast weights \<and>
             read_wkb env wkb \<noteq> None \<and>
             (''quantile'' \<in> set stats \<longrightarrow> quantiles \<noteq> None \<and> quantiles \<noteq> Some []) \<longrightarrow>
               CPP_stats env ops rast weights wkb default_value default_weight stats
                 max_cells_in_memory quantiles = ([], Inl CannotComputeCountSum))"
    by blast
next
  assume ok: "1 \<le> max_cells_in_memory \<and> layers_compatible rast weights \<and>
          (\<exists>geom. read_wkb env wkb = Some geom \<and>
             (\<forall>g \<in> set (windows_of env rast weights geom max_cells_in_memory).
                raster_cell_intersection env g geom \<noteq> None))"
  then obtain geom where geom: "read_wkb env wkb = Some geom"
    and cov: "\<forall>g \<in> set (windows_of env rast weights geom max_cells_in_memory).
                raster_cell_intersection env g geom \<noteq> None"
    by blast
  from ok have mc: "1 \<le> max_cells_in_memory" and lc: "layers_compatible rast weights"
    by simp_all
  have "\<exists>tr rss. CPP_stats env ops rast weights wkb default_value default_weight [''mean'']
          max_cells_in_memory quantiles =
           (tr, Inr \<lparr>nrow = max (get_nlayers rast) (nweights_of weights),
                     ncol = sum_list (map (stat_width quantiles) [''mean'']),
                     cells = map (\<lambda>rs. concat (map (stat_values ops quantiles rs) [''mean''])) rss\<rparr>)"
    by (rule CPP_stats_succeeds [OF mc lc geom _ _ cov]) (simp_all add: supported_stats_def)
  then show "\<exists>tr m. CPP_stats env ops rast weights wkb default_value default_weight [''mean'']
                       max_cells_in_memory quantiles = (tr, Inr m) \<and>
                     nrow m = max (get_nlayers rast) (nweights_of weights) \<and> ncol m = 1"
    by (auto simp: stat_width_def)
qed


theorem CPP_stats_disaggregation_witness:
  "disaggregated (ex_env ex_fine_geom) (ex_raster ex_grid [[3, 3, 5, 5]])
     (Some (ex_raster ex_fine_grid [[1, 2, 3, 4]])) \<and>
   CPP_stats (ex_env ex_fine_geom) ex_stats (ex_raster ex_grid [[3, 3, 5, 5]])
     (Some (ex_raster ex_fine_grid [[1, 2, 3, 4]])) [1] 0 0 [''mean'', ''sum''] 100 None
     = ([], Inl CannotComputeCountSum) \<and>
   (\<exists>tr m. CPP_stats (ex_env ex_fine_geom) ex_stats (ex_raster ex_grid [[3, 3, 5, 5]])
              (Some (ex_raster ex_fine_grid [[1, 2, 3, 4]])) [1] 0 0 [''mean''] 100 None
              = (tr, Inr m) \<and> nrow m = 1 \<and> ncol m = 1)"
proof -
  let ?rast = "ex_raster ex_grid [[3, 3, 5, 5]]"
  let ?w = "Some (ex_raster ex_fine_grid [[1, 2, 3, 4]])"
  have dis: "disaggregated (ex_env ex_fine_geom) ?rast ?w"
    by (simp add: disaggregated_def stats_grid_def ex_setting)
  have lc: "layers_compatible ?rast ?w"
    by (simp add: layers_compatible_def nweights_of_def ex_raster_def)
  have geom: "read_wkb (ex_env ex_fine_geom) [1] = Some ex_fine_geom"
    by (simp add: ex_env_def)
  have cov: "\<forall>g \<in> set (windows_of (ex_env ex_fine_geom) ?rast ?w ex_fine_geom 100).
               raster_cell_intersection (ex_env ex_fine_geom) g ex_fine_geom \<noteq> None"
    by (simp add: ex_env_def)
  have n: "max (get_nlayers ?rast) (nweights_of ?w) = 1"
    by (simp add: nweights_of_def ex_raster_def)
  note inst = CPP_stats_disaggregation [OF dis, where ops = ex_stats and wkb = "[1]"
      and default_value = 0 and default_weight = 0 and stats = "[''mean'', ''sum'']"
      and max_cells_in_memory = 100 and quantiles = None]
  from inst lc geom have "CPP_stats (ex_env ex_fine_geom) ex_stats ?rast ?w [1] 0 0
      [''mean'', ''sum''] 100 None = ([], Inl CannotComputeCountSum)"
    by simp
  moreover from inst lc geom cov n have
    "\<exists>tr m. CPP_stats (ex_env ex_fine_geom) ex_stats ?rast ?w [1] 0 0 [''mean''] 100 None
              = (tr, Inr m) \<and> nrow m = 1 \<and> ncol m = 1"
    by auto
  ultimately show ?thesis using dis by blast
qed

section \<open>Quantiles\<close>

text \<open>
  C9: a request that names \<^verbatim>\<open>quantile\<close> while the list of fractions is absent or
  empty ends with an error and an empty log, so before any window is processed; when the
  checks made before line 244 pass, the error is \<^verbatim>\<open>Quantiles not specified\<close>, a
  configuration error. With fractions \<open>qvec\<close>, a returned matrix has \<open>length qvec\<close>
  columns for each \<^verbatim>\<open>quantile\<close> of the request and one for every other statistic, and
  in every row the cells of a \<^verbatim>\<open>quantile\<close> are the quantiles at the fractions of
  \<open>qvec\<close>, in the order of \<open>qvec\<close>.
\<close>

theorem CPP_stats_quantiles:
  "(''quantile'' \<in> set stats \<and> (quantiles = None \<or> quantiles = Some []) \<longrightarrow>
      (\<exists>e. CPP_stats env ops rast weights wkb default_value default_weight stats
              max_cells_in_memory quantiles = ([], Inl e)) \<and>
      (1 \<le> max_cells_in_memory \<and> layers_compatible rast weights \<and> read_wkb env wkb \<noteq> None \<and>
       \<not> (disaggregated env rast weights \<and>
          (''count'' \<in> set (takeWhile (\<lambda>s. s \<noteq> ''quantile'') stats) \<or>
           ''sum'' \<in> set (takeWhile (\<lambda>s. s \<noteq> ''quantile'') stats))) \<longrightarrow>
         CPP_stats env ops rast weights wkb default_value default_weight stats
           max_cells_in_memory quantiles = ([], Inl QuantilesNotSpecified) \<and>
         is_configuration_error QuantilesNotSpecified)) \<and>
   (\<forall>m qvec. quantiles = Some qvec \<and>
        snd (CPP_stats env ops rast weights wkb default_value default_weight stats
               max_cells_in_memory quantiles) = Inr m \<longrightarrow>
        ncol m = (\<Sum>stat\<leftarrow>stats. if stat = ''quantile'' then length qvec else 1) \<and>
        (\<exists>rss. length rss = nrow m \<and>
           cells m =
             map (\<lambda>rs. concat (map (\<lambda>stat.
                    if stat = ''quantile''
                    then map (\<lambda>q. value_or_NA (rs_quantile ops rs q)) qvec
                    else stat_values ops quantiles rs stat) stats)) rss))"
proof (rule conjI)
  show "''quantile'' \<in> set stats \<and> (quantiles = None \<or> quantiles = Some []) \<longrightarrow>
      (\<exists>e. CPP_stats env ops rast weights wkb default_value default_weight stats
              max_cells_in_memory quantiles = ([], Inl e)) \<and>
      (1 \<le> max_cells_in_memory \<and> layers_compatible rast weights \<and> read_wkb env wkb \<noteq> None \<and>
       \<not> (disaggregated env rast weights \<and>
          (''count'' \<in> set (takeWhile (\<lambda>s. s \<noteq> ''quantile'') stats) \<or>
           ''sum'' \<in> set (takeWhile (\<lambda>s. s \<noteq> ''quantile'') stats))) \<longrightarrow>
         CPP_stats env ops rast weights wkb default_value default_weight stats
           max_cells_in_memory quantiles = ([], Inl QuantilesNotSpecified) \<and>
         is_configuration_error QuantilesNotSpecified)"
  proof (rule impI)
    assume a: "''quantile'' \<in> set stats \<and> (quantiles = None \<or> quantiles = Some [])"
    then have q: "''quantile'' \<in> set stats" and w: "stat_width quantiles ''quantile'' = 0"
      by (auto simp: stat_width_def)
    from validate_stats_no_quantiles [OF q w] have
      "\<exists>e. validate_stats (requires_stored_values env) (disaggregated env rast weights) quantiles
            stats (False, 0) = Inl e" .
    then have first: "\<exists>e. CPP_stats env ops rast weights wkb default_value default_weight stats
              max_cells_in_memory quantiles = ([], Inl e)"
      by (intro CPP_stats_unchecked) blast
    have second: "CPP_stats env ops rast weights wkb default_value default_weight stats
           max_cells_in_memory quantiles = ([], Inl QuantilesNotSpecified)"
      if ok: "1 \<le> max_cells_in_memory \<and> layers_compatible rast weights \<and>
              read_wkb env wkb \<noteq> None \<and>
              \<not> (disaggregated env rast weights \<and>
                 (''count'' \<in> set (takeWhile (\<lambda>s. s \<noteq> ''quantile'') stats) \<or>
                  ''sum'' \<in> set (takeWhile (\<lambda>s. s \<noteq> ''quantile'') stats)))"
    proof -
      from ok have "\<not> (disaggregated env rast weights \<and>
                 (''count'' \<in> set (takeWhile (\<lambda>s. s \<noteq> ''quantile'') stats) \<or>
                  ''sum'' \<in> set (takeWhile (\<lambda>s. s \<noteq> ''quantile'') stats)))" by simp
      from validate_stats_quantiles_not_specified
             [OF q w this, of "requires_stored_values env" False 0] ok
      show ?thesis
        by (auto simp: CPP_stats_def layers_compatible_def Let_def)
    qed
    from first second show "(\<exists>e. CPP_stats env ops rast weights wkb default_value default_weight stats
              max_cells_in_memory quantiles = ([], Inl e)) \<and>
      (1 \<le> max_cells_in_memory \<and> layers_compatible rast weights \<and> read_wkb env wkb \<noteq> None \<and>
       \<not> (disaggregated env rast weights \<and>
          (''count'' \<in> set (takeWhile (\<lambda>s. s \<noteq> ''quantile'') stats) \<or>
           ''sum'' \<in> set (takeWhile (\<lambda>s. s \<noteq> ''quantile'') stats))) \<longrightarrow>
         CPP_stats env ops rast weights wkb default_value default_weight stats
           max_cells_in_memory quantiles = ([], Inl QuantilesNotSpecified) \<and>
         is_configuration_error QuantilesNotSpecified)"
      by simp
  qed
next
  show "\<forall>m qvec. quantiles = Some qvec \<and>
        snd (CPP_stats env ops rast weights wkb default_value default_weight stats
               max_cells_in_memory quantiles) = Inr m \<longrightarrow>
        ncol m = (\<Sum>stat\<leftarrow>stats. if stat = ''quantile'' then length qvec else 1) \<and>
        (\<exists>rss. length rss = nrow m \<and>
           cells m =
             map (\<lambda>rs. concat (map (\<lambda>stat.
                    if stat = ''quantile''
                    then map (\<lambda>q. value_or_NA (rs_quantile ops rs q)) qvec
                    else stat_values ops quantiles rs stat) stats)) rss)"
  proof (intro allI impI)
    fix m qvec
    assume a: "quantiles = Some qvec \<and>
        snd (CPP_stats env ops rast weights wkb default_value default_weight stats
               max_cells_in_memory quantiles) = Inr m"
    then have qv: "quantiles = Some qvec" by simp
    from a obtain tr where
      "CPP_stats env ops rast weights wkb default_value default_weight stats
               max_cells_in_memory quantiles = (tr, Inr m)"
      by (cases "CPP_stats env ops rast weights wkb default_value default_weight stats
               max_cells_in_memory quantiles") simp
    then obtain geom sv rss where
      v: "validate_stats (requires_stored_values env) (disaggregated env rast weights) quantiles
            stats (False, 0) = Inr (sv, ncol m)"
      and rw: "run_windows env ops rast default_value weights default_weight geom
                 max_cells_in_memory
                 (replicate (max (get_nlayers rast) (nweights_of weights)) (rs_new ops sv))
               = (tr, Inr rss)"
      and rows: "stat_rows ops quantiles stats rss = Inr (cells m)"
      and n: "nrow m = max (get_nlayers rast) (nweights_of weights)"
      by (elim CPP_stats_InrE) blast
    have width: "stat_width (Some qvec) = (\<lambda>stat. if stat = ''quantile'' then length qvec else 1)"
      by (rule ext) (simp add: stat_width_def)
    have vals: "stat_values ops (Some qvec) rs =
        (\<lambda>stat. if stat = ''quantile''
                then map (\<lambda>q. value_or_NA (rs_quantile ops rs q)) qvec
                else stat_values ops (Some qvec) rs stat)" for rs
      by (rule ext) (simp add: stat_values_def stat_cells_def)
    from validate_stats_result [OF v] qv width
    have c: "ncol m = (\<Sum>stat\<leftarrow>stats. if stat = ''quantile'' then length qvec else 1)"
      by simp
    from run_windows_length [OF rw] n have l: "length rss = nrow m" by simp
    from stat_rows_Inr [OF rows] qv
    have "cells m = map (\<lambda>rs. concat (map (stat_values ops (Some qvec) rs) stats)) rss"
      by simp
    also have "\<dots> = map (\<lambda>rs. concat (map (\<lambda>stat.
                    if stat = ''quantile''
                    then map (\<lambda>q. value_or_NA (rs_quantile ops rs q)) qvec
                    else stat_values ops (Some qvec) rs stat) stats)) rss"
      using vals by metis
    finally show "ncol m = (\<Sum>stat\<leftarrow>stats. if stat = ''quantile'' then length qvec else 1) \<and>
        (\<exists>rss. length rss = nrow m \<and>
           cells m =
             map (\<lambda>rs. concat (map (\<lambda>stat.
                    if stat = ''quantile''
                    then map (\<lambda>q. value_or_NA (rs_quantile ops rs q)) qvec
                    else stat_values ops quantiles rs stat) stats)) rss)"
      using c l qv by blast
  qed
qed



theorem CPP_stats_quantiles_witness:
  "CPP_stats (ex_env ex_geom) ex_stats (ex_raster ex_grid [[3, 5]]) None [1] 0 0
     [''min'', ''quantile'', ''max''] 100 None = ([], Inl QuantilesNotSpecified) \<and>
   (\<exists>m. snd (CPP_stats (ex_env ex_geom) ex_stats (ex_raster ex_grid [[3, 5]]) None [1] 0 0
               [''min'', ''quantile'', ''max''] 100 (Some [3 / 4, 1 / 4])) = Inr m \<and>
        ncol m = 4 \<and> cells m = [[Dbl 3, Dbl (9 / 2), Dbl (7 / 2), Dbl 5]])"
proof -
  let ?rast = "ex_raster ex_grid [[3, 5]]"
  let ?stats = "[''min'', ''quantile'', ''max'']"
  have hyp: "''quantile'' \<in> set ?stats \<and>
             ((None :: real list option) = None \<or> None = Some ([] :: real list))"
    by simp
  have ok: "(1::int) \<le> 100 \<and> layers_compatible ?rast None \<and>
            read_wkb (ex_env ex_geom) [1] \<noteq> None \<and>
            \<not> (disaggregated (ex_env ex_geom) ?rast None \<and>
               (''count'' \<in> set (takeWhile (\<lambda>s. s \<noteq> ''quantile'') ?stats) \<or>
                ''sum'' \<in> set (takeWhile (\<lambda>s. s \<noteq> ''quantile'') ?stats)))"
    by (simp add: layers_compatible_def ex_env_def)
  from hyp ok CPP_stats_quantiles [where stats = ?stats and quantiles = None
      and env = "ex_env ex_geom" and ops = ex_stats and rast = ?rast and weights = None
      and wkb = "[1]" and default_value = 0 and default_weight = 0 and max_cells_in_memory = 100]
  have first: "CPP_stats (ex_env ex_geom) ex_stats ?rast None [1] 0 0 ?stats 100 None
                 = ([], Inl QuantilesNotSpecified)"
    by blast
  have run: "snd (CPP_stats (ex_env ex_geom) ex_stats ?rast None [1] 0 0 ?stats 100
                    (Some [3 / 4, 1 / 4]))
             = Inr \<lparr>nrow = 1, ncol = 4, cells = [[Dbl 3, Dbl (9 / 2), Dbl (7 / 2), Dbl 5]]\<rparr>"
    by (simp add: ex_setting ex_run ex_acc)
  from run CPP_stats_quantiles [where stats = ?stats and quantiles = "Some [3 / 4, 1 / 4]"
      and env = "ex_env ex_geom" and ops = ex_stats and rast = ?rast and weights = None
      and wkb = "[1]" and default_value = 0 and default_weight = 0 and max_cells_in_memory = 100]
  have "ncol \<lparr>nrow = 1, ncol = 4, cells = [[Dbl 3, Dbl (9 / 2), Dbl (7 / 2), Dbl 5]]\<rparr>
          = (\<Sum>stat\<leftarrow>?stats. if stat = ''quantile'' then length [3 / 4, 1 / 4 :: real] else 1)"
    by blast
  with run first show ?thesis by simp
qed

section \<open>A bounding box outside the grid\<close>

lemma run_windows_outside:
  "\<not> intersects env (geos_get_box env geom) (extent (stats_grid env rast weights)) \<Longrightarrow>
     run_windows env ops rast dv weights dw geom mc rss0 = ([], Inr rss0)"
  by (simp add: run_windows_def Let_def)

lemma CPP_stats_trace_outside:
  assumes "read_wkb env wkb = Some geom"
    and "\<not> intersects env (geos_get_box env geom) (extent (stats_grid env rast weights))"
  shows "fst (CPP_stats env ops rast weights wkb dv dw stats mc q) = []"
  using assms
  by (auto simp: CPP_stats_def Let_def run_windows_outside split: option.splits sum.splits)

text \<open>
  C10: when the bounding box of the geometry does not intersect the extent of the grid of
  line 222, the log of the call is empty: no coverage is computed, no raster is read and no
  accumulator is updated. A matrix that is returned has \<open>max nlayers nweights\<close> rows, and
  each row holds what the readers give on the accumulator as it was constructed. A request
  that passes the checks of lines 196-252 and names supported statistics only does return
  the matrix.
\<close>

theorem CPP_stats_bbox_outside:
  assumes "read_wkb env wkb = Some geom"
    and "\<not> intersects env (geos_get_box env geom) (extent (stats_grid env rast weights))"
  shows "fst (CPP_stats env ops rast weights wkb default_value default_weight stats
                max_cells_in_memory quantiles) = [] \<and>
         (\<forall>m. snd (CPP_stats env ops rast weights wkb default_value default_weight stats
                     max_cells_in_memory quantiles) = Inr m \<longrightarrow>
            nrow m = max (get_nlayers rast) (nweights_of weights) \<and>
            ncol m = sum_list (map (stat_width quantiles) stats) \<and>
            cells m = replicate (max (get_nlayers rast) (nweights_of weights))
                        (concat (map (stat_values ops quantiles
                                        (rs_new ops (\<exists>s \<in> set stats. requires_stored_values env s)))
                                   stats))) \<and>
         (1 \<le> max_cells_in_memory \<and> layers_compatible rast weights \<and>
          \<not> (disaggregated env rast weights \<and> (''count'' \<in> set stats \<or> ''sum'' \<in> set stats)) \<and>
          (''quantile'' \<in> set stats \<longrightarrow> quantiles \<noteq> None \<and> quantiles \<noteq> Some []) \<and>
          set stats \<subseteq> set supported_stats \<longrightarrow>
            (\<exists>m. snd (CPP_stats env ops rast weights wkb default_value default_weight stats
                        max_cells_in_memory quantiles) = Inr m))"
proof (intro conjI)
  show "fst (CPP_stats env ops rast weights wkb default_value default_weight stats
                max_cells_in_memory quantiles) = []"
    by (rule CPP_stats_trace_outside [OF assms])
next
  show "\<forall>m. snd (CPP_stats env ops rast weights wkb default_value default_weight stats
                     max_cells_in_memory quantiles) = Inr m \<longrightarrow>
            nrow m = max (get_nlayers rast) (nweights_of weights) \<and>
            ncol m = sum_list (map (stat_width quantiles) stats) \<and>
            cells m = replicate (max (get_nlayers rast) (nweights_of weights))
                        (concat (map (stat_values ops quantiles
                                        (rs_new ops (\<exists>s \<in> set stats. requires_stored_values env s)))
                                   stats))"
  proof (intro allI impI)
    fix m
    assume "snd (CPP_stats env ops rast weights wkb default_value default_weight stats
                     max_cells_in_memory quantiles) = Inr m"
    then obtain tr where
      "CPP_stats env ops rast weights wkb default_value default_weight stats
               max_cells_in_memory quantiles = (tr, Inr m)"
      by (cases "CPP_stats env ops rast weights wkb default_value default_weight stats
               max_cells_in_memory quantiles") simp
    then obtain geom' sv rss where
      g: "read_wkb env wkb = Some geom'"
      and v: "validate_stats (requires_stored_values env) (disaggregated env rast weights) quantiles
            stats (False, 0) = Inr (sv, ncol m)"
      and rw: "run_windows env ops rast default_value weights default_weight geom'
                 max_cells_in_memory
                 (replicate (max (get_nlayers rast) (nweights_of weights)) (rs_new ops sv))
               = (tr, Inr rss)"
      and rows: "stat_rows ops quantiles stats rss = Inr (cells m)"
      and n: "nrow m = max (get_nlayers rast) (nweights_of weights)"
      by (elim CPP_stats_InrE) blast
    from g assms(1) have "geom' = geom" by simp
    with rw run_windows_outside [OF assms(2), of ops default_value default_weight max_cells_in_memory]
    have rss: "rss = replicate (max (get_nlayers rast) (nweights_of weights)) (rs_new ops sv)"
      by simp
    from validate_stats_result [OF v]
    have sv: "sv = (\<exists>s \<in> set stats. requires_stored_values env s)"
      and c: "ncol m = sum_list (map (stat_width quantiles) stats)"
      by simp_all
    from stat_rows_Inr [OF rows] rss sv
    have "cells m = replicate (max (get_nlayers rast) (nweights_of weights))
                        (concat (map (stat_values ops quantiles
                                        (rs_new ops (\<exists>s \<in> set stats. requires_stored_values env s)))
                                   stats))"
      by simp
    with n c show "nrow m = max (get_nlayers rast) (nweights_of weights) \<and>
            ncol m = sum_list (map (stat_width quantiles) stats) \<and>
            cells m = replicate (max (get_nlayers rast) (nweights_of weights))
                        (concat (map (stat_values ops quantiles
                                        (rs_new ops (\<exists>s \<in> set stats. requires_stored_values env s)))
                                   stats))"
      by simp
  qed
next
  show "1 \<le> max_cells_in_memory \<and> layers_compatible rast weights \<and>
          \<not> (disaggregated env rast weights \<and> (''count'' \<in> set stats \<or> ''sum'' \<in> set stats)) \<and>
          (''quantile'' \<in> set stats \<longrightarrow> quantiles \<noteq> None \<and> quantiles \<noteq> Some []) \<and>
          set stats \<subseteq> set supported_stats \<longrightarrow>
            (\<exists>m. snd (CPP_stats env ops rast weights wkb default_value default_weight stats
                        max_cells_in_memory quantiles) = Inr m)"
  proof (rule impI)
    assume ok: "1 \<le> max_cells_in_memory \<and> layers_compatible rast weights \<and>
          \<not> (disaggregated env rast weights \<and> (''count'' \<in> set stats \<or> ''sum'' \<in> set stats)) \<and>
          (''quantile'' \<in> set stats \<longrightarrow> quantiles \<noteq> None \<and> quantiles \<noteq> Some []) \<and>
          set stats \<subseteq> set supported_stats"
    from assms(2) have w: "\<forall>g \<in> set (windows_of env rast weights geom max_cells_in_memory).
           raster_cell_intersection env g geom \<noteq> None"
      by (simp add: windows_of_def)
    from ok have "\<exists>tr rss. CPP_stats env ops rast weights wkb default_value default_weight stats
                 max_cells_in_memory quantiles =
           (tr, Inr \<lparr>nrow = max (get_nlayers rast) (nweights_of weights),
                     ncol = sum_list (map (stat_width quantiles) stats),
                     cells = map (\<lambda>rs. concat (map (stat_values ops quantiles rs) stats)) rss\<rparr>)"
      by (intro CPP_stats_succeeds [OF _ _ assms(1) _ _ w]) simp_all
    then show "\<exists>m. snd (CPP_stats env ops rast weights wkb default_value default_weight stats
                        max_cells_in_memory quantiles) = Inr m"
      by auto
  qed
qed



theorem CPP_stats_bbox_outside_witness:
  "fst (CPP_stats (ex_env ex_far_geom) ex_stats (ex_raster ex_grid [[3, 5], [1, 1]])
          (Some (ex_raster ex_grid [[1, 2]])) [1] 0 0 [''mean'', ''count'', ''min''] 100 None) = [] \<and>
   snd (CPP_stats (ex_env ex_far_geom) ex_stats (ex_raster ex_grid [[3, 5], [1, 1]])
          (Some (ex_raster ex_grid [[1, 2]])) [1] 0 0 [''mean'', ''count'', ''min''] 100 None)
     = Inr \<lparr>nrow = 2, ncol = 3, cells = [[NA_REAL, Dbl 0, NA_REAL], [NA_REAL, Dbl 0, NA_REAL]]\<rparr>"
proof -
  let ?env = "ex_env ex_far_geom"
  let ?rast = "ex_raster ex_grid [[3, 5], [1, 1]]"
  let ?w = "Some (ex_raster ex_grid [[1, 2]])"
  let ?stats = "[''mean'', ''count'', ''min'']"
  let ?run = "CPP_stats ?env ex_stats ?rast ?w [1] 0 0 ?stats 100 None"
  have geom: "read_wkb ?env [1] = Some ex_far_geom"
    by (simp add: ex_env_def)
  have out: "\<not> intersects ?env (geos_get_box ?env ex_far_geom) (extent (stats_grid ?env ?rast ?w))"
    by (simp add: stats_grid_def ex_setting)
  have ok: "(1::int) \<le> 100 \<and> layers_compatible ?rast ?w \<and>
          \<not> (disaggregated ?env ?rast ?w \<and> (''count'' \<in> set ?stats \<or> ''sum'' \<in> set ?stats)) \<and>
          (''quantile'' \<in> set ?stats \<longrightarrow>
             (None :: real list option) \<noteq> None \<and> None \<noteq> Some ([] :: real list)) \<and>
          set ?stats \<subseteq> set supported_stats"
    by (simp add: layers_compatible_def nweights_of_def disaggregated_def stats_grid_def
        supported_stats_def ex_setting)
  note inst = CPP_stats_bbox_outside [OF geom out, where ops = ex_stats and default_value = 0
      and default_weight = 0 and stats = ?stats and max_cells_in_memory = 100 and quantiles = None]
  from inst have tr: "fst ?run = []" by blast
  from inst ok obtain m where m: "snd ?run = Inr m" by blast
  with inst have
    "nrow m = max (get_nlayers ?rast) (nweights_of ?w) \<and>
     ncol m = sum_list (map (stat_width None) ?stats) \<and>
     cells m = replicate (max (get_nlayers ?rast) (nweights_of ?w))
                 (concat (map (stat_values ex_stats None
                            (rs_new ex_stats (\<exists>s \<in> set ?stats. requires_stored_values ?env s)))
                          ?stats))"
    by blast
  then have "nrow m = 2 \<and> ncol m = 3 \<and>
             cells m = [[NA_REAL, Dbl 0, NA_REAL], [NA_REAL, Dbl 0, NA_REAL]]"
    by (simp add: nweights_of_def stat_width_def stat_values_def stat_cells_def value_or_NA_def
        ex_setting ex_acc numeral_2_eq_2)
  then have "m = \<lparr>nrow = 2, ncol = 3, cells = [[NA_REAL, Dbl 0, NA_REAL], [NA_REAL, Dbl 0, NA_REAL]]\<rparr>"
    by (cases m) simp
  with tr m show ?thesis by simp
qed

section \<open>Recycling a single layer\<close>

lemma snd_CPP_stats:
  "snd (CPP_stats env ops rast weights wkb dv dw stats mc q) =
     (if mc < 1 then Inl (InvalidMaxCells mc)
      else if \<not> layers_compatible rast weights then Inl IncompatibleLayers
      else case read_wkb env wkb of
        None \<Rightarrow> Inl GeometryError
      | Some geom \<Rightarrow>
          (case validate_stats (requires_stored_values env) (disaggregated env rast weights) q
                  stats (False, 0) of
             Inl e \<Rightarrow> Inl e
           | Inr (sv, n) \<Rightarrow>
               (case snd (run_windows env ops rast dv weights dw geom mc
                            (replicate (max (get_nlayers rast) (nweights_of weights))
                               (rs_new ops sv))) of
                  Inl e \<Rightarrow> Inl e
                | Inr rss \<Rightarrow>
                    (case stat_rows ops q stats rss of
                       Inl e \<Rightarrow> Inl e
                     | Inr rows \<Rightarrow>
                         Inr \<lparr>nrow = max (get_nlayers rast) (nweights_of weights), ncol = n,
                              cells = rows\<rparr>))))"
  by (auto simp: CPP_stats_def layers_compatible_def Let_def
      split: option.splits sum.splits prod.splits)

lemma process_subgrids_snd_cong:
  assumes "\<And>cov st st'. snd st = snd st' \<Longrightarrow>
             snd (process_window ops rast dv weights dw cov st)
               = snd (process_window ops rast' dv weights' dw cov st')"
  shows "snd st = snd st' \<Longrightarrow>
           snd (process_subgrids env ops rast dv weights dw geom gs st)
             = snd (process_subgrids env ops rast' dv weights' dw geom gs st')"
proof (induction gs arbitrary: st st')
  case Nil
  then show ?case by (cases st; cases st') simp
next
  case (Cons g gs)
  obtain tr rss where st: "st = (tr, rss)" by (cases st)
  obtain tr' rss' where st': "st' = (tr', rss')" by (cases st')
  from Cons.prems st st' have eq: "rss' = rss" by simp
  show ?case
  proof (cases "raster_cell_intersection env g geom")
    case None
    then show ?thesis by (simp add: st st')
  next
    case (Some cov)
    have "snd (if \<not> grid_empty env (rgrid cov)
               then process_window ops rast dv weights dw cov (tr @ [Coverage g], rss)
               else (tr @ [Coverage g], rss))
          = snd (if \<not> grid_empty env (rgrid cov)
               then process_window ops rast' dv weights' dw cov (tr' @ [Coverage g], rss')
               else (tr' @ [Coverage g], rss'))"
      using assms [of "(tr @ [Coverage g], rss)" "(tr' @ [Coverage g], rss')" cov] eq by simp
    from Cons.IH [OF this] Some show ?thesis by (simp add: st st')
  qed
qed

lemma process_window_duplicate_weights:
  assumes "get_nlayers w = 1" and "1 < get_nlayers rast" and "snd st = snd st'"
  shows "snd (process_window ops rast dv (Some w) dw cov st)
           = snd (process_window ops rast dv (Some (duplicate_layer (get_nlayers rast) w)) dw cov st')"
  using assms
  by (simp add: process_window_def duplicate_layer_def Let_def fold_pair_snd)

lemma process_window_duplicate_values:
  assumes "get_nlayers rast = 1" and "1 < get_nlayers w" and "snd st = snd st'"
  shows "snd (process_window ops rast dv (Some w) dw cov st)
           = snd (process_window ops (duplicate_layer (get_nlayers w) rast) dv (Some w) dw cov st')"
  using assms
  by (simp add: process_window_def duplicate_layer_def Let_def fold_pair_snd)

lemma duplicate_layer_grid [simp]:
  "make_grid (duplicate_layer n r) = make_grid r"
  by (simp add: duplicate_layer_def)

lemma duplicate_layer_nlayers [simp]:
  "get_nlayers (duplicate_layer n r) = n"
  by (simp add: duplicate_layer_def)

text \<open>
  C6: when the weighting raster has one layer and the value raster more than one, the
  result of the call is the result obtained with the weighting raster replaced by as many
  copies of its layer as there are value layers, which are then paired by index; and the
  same with the two rasters exchanged. The result is the error raised or the matrix
  returned.
\<close>

theorem CPP_stats_recycling:
  "(get_nlayers w = 1 \<and> 1 < get_nlayers rast \<longrightarrow>
      snd (CPP_stats env ops rast (Some w) wkb default_value default_weight stats
             max_cells_in_memory quantiles)
      = snd (CPP_stats env ops rast (Some (duplicate_layer (get_nlayers rast) w)) wkb
               default_value default_weight stats max_cells_in_memory quantiles)) \<and>
   (get_nlayers rast = 1 \<and> 1 < get_nlayers w \<longrightarrow>
      snd (CPP_stats env ops rast (Some w) wkb default_value default_weight stats
             max_cells_in_memory quantiles)
      = snd (CPP_stats env ops (duplicate_layer (get_nlayers w) rast) (Some w) wkb
               default_value default_weight stats max_cells_in_memory quantiles))"
proof (rule conjI; rule impI)
  assume a: "get_nlayers w = 1 \<and> 1 < get_nlayers rast"
  let ?w' = "duplicate_layer (get_nlayers rast) w"
  have grid: "stats_grid env rast (Some ?w') = stats_grid env rast (Some w)"
    by (simp add: stats_grid_def)
  have dis: "disaggregated env rast (Some ?w') = disaggregated env rast (Some w)"
    by (simp add: disaggregated_def grid)
  have win: "windows_of env rast (Some ?w') geom max_cells_in_memory
               = windows_of env rast (Some w) geom max_cells_in_memory" for geom
    by (simp add: windows_of_def grid)
  have lc: "layers_compatible rast (Some ?w') = layers_compatible rast (Some w)"
    using a by (simp add: layers_compatible_def nweights_of_def)
  have n: "max (get_nlayers rast) (nweights_of (Some ?w'))
             = max (get_nlayers rast) (nweights_of (Some w))"
    using a by (simp add: nweights_of_def)
  have rw: "snd (run_windows env ops rast default_value (Some w) default_weight geom
                   max_cells_in_memory rss0)
            = snd (run_windows env ops rast default_value (Some ?w') default_weight geom
                   max_cells_in_memory rss0)" for geom rss0
    unfolding run_windows_eq win
    by (rule process_subgrids_snd_cong)
       (use a in \<open>simp_all add: process_window_duplicate_weights\<close>)
  show "snd (CPP_stats env ops rast (Some w) wkb default_value default_weight stats
             max_cells_in_memory quantiles)
      = snd (CPP_stats env ops rast (Some ?w') wkb
               default_value default_weight stats max_cells_in_memory quantiles)"
    by (simp only: snd_CPP_stats dis lc n rw)
next
  assume a: "get_nlayers rast = 1 \<and> 1 < get_nlayers w"
  let ?r' = "duplicate_layer (get_nlayers w) rast"
  have grid: "stats_grid env ?r' (Some w) = stats_grid env rast (Some w)"
    by (simp add: stats_grid_def)
  have dis: "disaggregated env ?r' (Some w) = disaggregated env rast (Some w)"
    by (simp add: disaggregated_def grid)
  have win: "windows_of env ?r' (Some w) geom max_cells_in_memory
               = windows_of env rast (Some w) geom max_cells_in_memory" for geom
    by (simp add: windows_of_def grid)
  have lc: "layers_compatible ?r' (Some w) = layers_compatible rast (Some w)"
    using a by (simp add: layers_compatible_def nweights_of_def)
  have n: "max (get_nlayers ?r') (nweights_of (Some w))
             = max (get_nlayers rast) (nweights_of (Some w))"
    using a by (simp add: nweights_of_def)
  have rw: "snd (run_windows env ops rast default_value (Some w) default_weight geom
                   max_cells_in_memory rss0)
            = snd (run_windows env ops ?r' default_value (Some w) default_weight geom
                   max_cells_in_memory rss0)" for geom rss0
    unfolding run_windows_eq win
    by (rule process_subgrids_snd_cong)
       (use a in \<open>simp_all add: process_window_duplicate_values\<close>)
  show "snd (CPP_stats env ops rast (Some w) wkb default_value default_weight stats
             max_cells_in_memory quantiles)
      = snd (CPP_stats env ops ?r' (Some w) wkb
               default_value default_weight stats max_cells_in_memory quantiles)"
    by (simp only: snd_CPP_stats dis lc n rw)
qed



theorem CPP_stats_recycling_witness:
  "snd (CPP_stats (ex_env ex_geom) ex_stats (ex_raster ex_grid [[3, 5], [1, 2], [4, 4]])
          (Some (duplicate_layer 3 (ex_raster ex_grid [[1, 3]]))) [1] 0 0
          [''weighted_mean'', ''weighted_sum''] 100 None)
     = Inr \<lparr>nrow = 3, ncol = 2,
            cells = [[Dbl (9 / 2), Dbl 18], [Dbl (7 / 4), Dbl 7], [Dbl 4, Dbl 16]]\<rparr> \<and>
   snd (CPP_stats (ex_env ex_geom) ex_stats (duplicate_layer 2 (ex_raster ex_grid [[3, 5]]))
          (Some (ex_raster ex_grid [[1, 3], [2, 2]])) [1] 0 0
          [''weighted_mean'', ''weighted_sum''] 100 None)
     = Inr \<lparr>nrow = 2, ncol = 2, cells = [[Dbl (9 / 2), Dbl 18], [Dbl 4, Dbl 16]]\<rparr>"
proof -
  let ?stats = "[''weighted_mean'', ''weighted_sum'']"
  have one: "get_nlayers (ex_raster ex_grid [[1, 3]]) = 1 \<and>
             1 < get_nlayers (ex_raster ex_grid [[3, 5], [1, 2], [4, 4]])"
    by (simp add: ex_raster_def)
  have three: "get_nlayers (ex_raster ex_grid [[3, 5], [1, 2], [4, 4]]) = 3"
    by (simp add: ex_raster_def)
  have run1: "snd (CPP_stats (ex_env ex_geom) ex_stats (ex_raster ex_grid [[3, 5], [1, 2], [4, 4]])
          (Some (ex_raster ex_grid [[1, 3]])) [1] 0 0 ?stats 100 None)
     = Inr \<lparr>nrow = 3, ncol = 2,
            cells = [[Dbl (9 / 2), Dbl 18], [Dbl (7 / 4), Dbl 7], [Dbl 4, Dbl 16]]\<rparr>"
    by (simp add: ex_setting ex_run ex_acc)
  from one three run1
    CPP_stats_recycling [where w = "ex_raster ex_grid [[1, 3]]"
      and rast = "ex_raster ex_grid [[3, 5], [1, 2], [4, 4]]" and env = "ex_env ex_geom"
      and ops = ex_stats and wkb = "[1]" and default_value = 0 and default_weight = 0
      and stats = ?stats and max_cells_in_memory = 100 and quantiles = None]
  have first: "snd (CPP_stats (ex_env ex_geom) ex_stats (ex_raster ex_grid [[3, 5], [1, 2], [4, 4]])
          (Some (duplicate_layer 3 (ex_raster ex_grid [[1, 3]]))) [1] 0 0 ?stats 100 None)
     = Inr \<lparr>nrow = 3, ncol = 2,
            cells = [[Dbl (9 / 2), Dbl 18], [Dbl (7 / 4), Dbl 7], [Dbl 4, Dbl 16]]\<rparr>"
    by simp
  have one': "get_nlayers (ex_raster ex_grid [[3, 5]]) = 1 \<and>
              1 < get_nlayers (ex_raster ex_grid [[1, 3], [2, 2]])"
    by (simp add: ex_raster_def)
  have two: "get_nlayers (ex_raster ex_grid [[1, 3], [2, 2]]) = 2"
    by (simp add: ex_raster_def)
  have run2: "snd (CPP_stats (ex_env ex_geom) ex_stats (ex_raster ex_grid [[3, 5]])
          (Some (ex_raster ex_grid [[1, 3], [2, 2]])) [1] 0 0 ?stats 100 None)
     = Inr \<lparr>nrow = 2, ncol = 2, cells = [[Dbl (9 / 2), Dbl 18], [Dbl 4, Dbl 16]]\<rparr>"
    by (simp add: ex_setting ex_run ex_acc)
  from one' two run2
    CPP_stats_recycling [where w = "ex_raster ex_grid [[1, 3], [2, 2]]"
      and rast = "ex_raster ex_grid [[3, 5]]" and env = "ex_env ex_geom"
      and ops = ex_stats and wkb = "[1]" and default_value = 0 and default_weight = 0
      and stats = ?stats and max_cells_in_memory = 100 and quantiles = None]
  have second: "snd (CPP_stats (ex_env ex_geom) ex_stats (duplicate_layer 2 (ex_raster ex_grid [[3, 5]]))
          (Some (ex_raster ex_grid [[1, 3], [2, 2]])) [1] 0 0 ?stats 100 None)
     = Inr \<lparr>nrow = 2, ncol = 2, cells = [[Dbl (9 / 2), Dbl 18], [Dbl 4, Dbl 16]]\<rparr>"
    by simp
  from first second show ?thesis by simp
qed

section \<open>A geometry that covers no cell\<close>

lemma fold_acc_cell_uncovered:
  "\<forall>c \<in> set cs. c = 0 \<Longrightarrow> fold acc_cell (zip cs xs) a = a"
proof (induction cs arbitrary: xs)
  case Nil
  then show ?case by simp
next
  case (Cons c cs)
  then show ?case by (cases xs) (auto simp: acc_cell_def)
qed

lemma acc_process_uncovered:
  "\<forall>c \<in> set (rvalues cov). c = 0 \<Longrightarrow> acc_process a cov values = a"
  by (simp add: acc_process_def fold_acc_cell_uncovered)

lemma acc_process_weighted_uncovered:
  "\<forall>c \<in> set (rvalues cov). c = 0 \<Longrightarrow> acc_process_weighted a cov values weights = a"
  by (simp add: acc_process_weighted_def fold_acc_cell_uncovered)

lemma fold_unchanged:
  "(\<And>i s. g i s = s) \<Longrightarrow> fold g xs s = s"
  by (induction xs) auto

lemma process_window_uncovered:
  assumes "\<forall>c \<in> set (rvalues cov). c = 0"
  shows "snd (process_window (spec_raster_stats interp sqrt_fn) rast dv weights dw cov st) = snd st"
  using assms
  by (simp add: process_window_def Let_def fold_pair_snd process_both_def fold_unchanged
      spec_raster_stats_def acc_process_uncovered acc_process_weighted_uncovered
      split: option.splits)

lemma process_subgrids_uncovered:
  assumes "\<forall>g \<in> set gs. \<exists>cov. raster_cell_intersection env g geom = Some cov \<and>
             (\<forall>c \<in> set (rvalues cov). c = 0)"
  shows "snd (process_subgrids env (spec_raster_stats interp sqrt_fn) rast dv weights dw geom gs st)
           = Inr (snd st)"
  using assms
proof (induction gs arbitrary: st)
  case Nil
  then show ?case by (cases st) simp
next
  case (Cons g gs)
  obtain tr rss where st: "st = (tr, rss)" by (cases st)
  from Cons.prems obtain cov where
    cov: "raster_cell_intersection env g geom = Some cov" and z: "\<forall>c \<in> set (rvalues cov). c = 0"
    by auto
  from Cons.prems have rest: "\<forall>g \<in> set gs. \<exists>cov. raster_cell_intersection env g geom = Some cov \<and>
             (\<forall>c \<in> set (rvalues cov). c = 0)" by simp
  show ?case
    using Cons.IH [OF rest] cov process_window_uncovered [OF z]
    by (simp add: st)
qed

lemma stat_values_new:
  "stat \<in> set supported_stats \<Longrightarrow>
     stat_values (spec_raster_stats interp sqrt_fn) q (acc_new sv) stat = zero_coverage_cells q stat"
  by (auto simp: supported_stats_def stat_values_def stat_cells_def zero_coverage_cells_def
      stat_width_def value_or_NA_def spec_raster_stats_def acc_new_def when_counted_def
      acc_mean_def acc_optional_def acc_weighted_mean_def acc_coefficient_of_variation_def
      map_replicate_const split: option.splits)

lemma stat_rows_nonempty:
  "stat_rows ops q stats rss = Inr rows \<Longrightarrow> rss \<noteq> [] \<Longrightarrow> set stats \<subseteq> set supported_stats"
  by (cases rss) (auto split: sum.splits dest: stat_row_Inr)

text \<open>
  C5, with the accumulator modelled after the specification: let the geometry cover no
  cell, that is, every window of the call gets coverage fractions that are all 0; this
  includes the call without windows, when the bounding box lies outside the grid. Then in
  every row of a returned matrix \<^verbatim>\<open>count\<close> and \<^verbatim>\<open>variety\<close> are 0 and every other
  requested statistic, each requested quantile included, is the missing value. A request
  that passes the checks of lines 196-252 and names supported statistics only does return
  the matrix.
\<close>

theorem CPP_stats_zero_coverage:
  assumes "read_wkb env wkb = Some geom"
    and "\<forall>g \<in> set (windows_of env rast weights geom max_cells_in_memory).
           \<exists>cov. raster_cell_intersection env g geom = Some cov \<and>
                 (\<forall>c \<in> set (rvalues cov). c = 0)"
  shows "(\<forall>m. snd (CPP_stats env (spec_raster_stats interp sqrt_fn) rast weights wkb default_value
                     default_weight stats max_cells_in_memory quantiles) = Inr m \<longrightarrow>
            length (cells m) = max (get_nlayers rast) (nweights_of weights) \<and>
            (\<forall>row \<in> set (cells m). row = concat (map (zero_coverage_cells quantiles) stats))) \<and>
         (1 \<le> max_cells_in_memory \<and> layers_compatible rast weights \<and>
          \<not> (disaggregated env rast weights \<and> (''count'' \<in> set stats \<or> ''sum'' \<in> set stats)) \<and>
          (''quantile'' \<in> set stats \<longrightarrow> quantiles \<noteq> None \<and> quantiles \<noteq> Some []) \<and>
          set stats \<subseteq> set supported_stats \<longrightarrow>
            (\<exists>m. snd (CPP_stats env (spec_raster_stats interp sqrt_fn) rast weights wkb
                        default_value default_weight stats max_cells_in_memory quantiles) = Inr m))"
proof (rule conjI)
  let ?ops = "spec_raster_stats interp sqrt_fn"
  show "\<forall>m. snd (CPP_stats env ?ops rast weights wkb default_value
                     default_weight stats max_cells_in_memory quantiles) = Inr m \<longrightarrow>
            length (cells m) = max (get_nlayers rast) (nweights_of weights) \<and>
            (\<forall>row \<in> set (cells m). row = concat (map (zero_coverage_cells quantiles) stats))"
  proof (intro allI impI)
    fix m
    assume "snd (CPP_stats env ?ops rast weights wkb default_value
                     default_weight stats max_cells_in_memory quantiles) = Inr m"
    then obtain tr where
      "CPP_stats env ?ops rast weights wkb default_value default_weight stats
               max_cells_in_memory quantiles = (tr, Inr m)"
      by (cases "CPP_stats env ?ops rast weights wkb default_value default_weight stats
               max_cells_in_memory quantiles") simp
    then obtain geom' sv rss where
      g: "read_wkb env wkb = Some geom'"
      and rw: "run_windows env ?ops rast default_value weights default_weight geom'
                 max_cells_in_memory
                 (replicate (max (get_nlayers rast) (nweights_of weights)) (rs_new ?ops sv))
               = (tr, Inr rss)"
      and rows: "stat_rows ?ops quantiles stats rss = Inr (cells m)"
      by (elim CPP_stats_InrE) blast
    from g assms(1) have "geom' = geom" by simp
    with rw process_subgrids_uncovered [OF assms(2), where interp = interp and sqrt_fn = sqrt_fn
        and rast = rast and dv = default_value and weights = weights and dw = default_weight
        and st = "([], replicate (max (get_nlayers rast) (nweights_of weights)) (rs_new ?ops sv))"]
    have rss: "rss = replicate (max (get_nlayers rast) (nweights_of weights)) (acc_new sv)"
      by (simp add: run_windows_eq spec_raster_stats_def)
    note cells = stat_rows_Inr [OF rows]
    from cells rss have len: "length (cells m) = max (get_nlayers rast) (nweights_of weights)"
      by simp
    have "row = concat (map (zero_coverage_cells quantiles) stats)" if "row \<in> set (cells m)" for row
    proof -
      from that cells have ne: "rss \<noteq> []" by auto
      from stat_rows_nonempty [OF rows ne] have sup: "set stats \<subseteq> set supported_stats" .
      from that cells rss have "row = concat (map (stat_values ?ops quantiles (acc_new sv)) stats)"
        by auto
      also from sup have "map (stat_values ?ops quantiles (acc_new sv)) stats
                           = map (zero_coverage_cells quantiles) stats"
        by (intro map_cong refl stat_values_new) auto
      finally show ?thesis .
    qed
    with len show "length (cells m) = max (get_nlayers rast) (nweights_of weights) \<and>
            (\<forall>row \<in> set (cells m). row = concat (map (zero_coverage_cells quantiles) stats))"
      by blast
  qed
next
  let ?ops = "spec_raster_stats interp sqrt_fn"
  show "1 \<le> max_cells_in_memory \<and> layers_compatible rast weights \<and>
          \<not> (disaggregated env rast weights \<and> (''count'' \<in> set stats \<or> ''sum'' \<in> set stats)) \<and>
          (''quantile'' \<in> set stats \<longrightarrow> quantiles \<noteq> None \<and> quantiles \<noteq> Some []) \<and>
          set stats \<subseteq> set supported_stats \<longrightarrow>
            (\<exists>m. snd (CPP_stats env ?ops rast weights wkb
                        default_value default_weight stats max_cells_in_memory quantiles) = Inr m)"
  proof (rule impI)
    assume ok: "1 \<le> max_cells_in_memory \<and> layers_compatible rast weights \<and>
          \<not> (disaggregated env rast weights \<and> (''count'' \<in> set stats \<or> ''sum'' \<in> set stats)) \<and>
          (''quantile'' \<in> set stats \<longrightarrow> quantiles \<noteq> None \<and> quantiles \<noteq> Some []) \<and>
          set stats \<subseteq> set supported_stats"
    from assms(2) have w: "\<forall>g \<in> set (windows_of env rast weights geom max_cells_in_memory).
           raster_cell_intersection env g geom \<noteq> None"
      by auto
    from ok have "\<exists>tr rss. CPP_stats env ?ops rast weights wkb default_value default_weight stats
                 max_cells_in_memory quantiles =
           (tr, Inr \<lparr>nrow = max (get_nlayers rast) (nweights_of weights),
                     ncol = sum_list (map (stat_width quantiles) stats),
                     cells = map (\<lambda>rs. concat (map (stat_values ?ops quantiles rs) stats)) rss\<rparr>)"
      by (intro CPP_stats_succeeds [OF _ _ assms(1) _ _ w]) simp_all
    then show "\<exists>m. snd (CPP_stats env ?ops rast weights wkb default_value default_weight stats
                        max_cells_in_memory quantiles) = Inr m"
      by auto
  qed
qed



theorem CPP_stats_zero_coverage_witness:
  "(\<exists>m. snd (CPP_stats (ex_env ex_hollow_geom) ex_stats (ex_raster ex_grid [[3, 5], [1, 1]]) None
               [1] 0 0 [''count'', ''sum'', ''quantile'', ''variety'', ''mode'', ''stdev''] 100
               (Some [1 / 2, 9 / 10])) = Inr m \<and>
        cells m = [[Dbl 0, NA_REAL, NA_REAL, NA_REAL, Dbl 0, NA_REAL, NA_REAL],
                   [Dbl 0, NA_REAL, NA_REAL, NA_REAL, Dbl 0, NA_REAL, NA_REAL]]) \<and>
   (\<exists>m. snd (CPP_stats (ex_env ex_far_geom) ex_stats (ex_raster ex_grid [[3, 5]]) None
               [1] 0 0 [''mean'', ''count''] 100 None) = Inr m \<and>
        cells m = [[NA_REAL, Dbl 0]])"
proof -
  let ?env = "ex_env ex_hollow_geom"
  let ?rast = "ex_raster ex_grid [[3, 5], [1, 1]]"
  let ?stats = "[''count'', ''sum'', ''quantile'', ''variety'', ''mode'', ''stdev'']"
  let ?q = "Some [1 / 2, 9 / 10 :: real]"
  have geom: "read_wkb ?env [1] = Some ex_hollow_geom"
    by (simp add: ex_env_def)
  have wins: "windows_of ?env ?rast None ex_hollow_geom 100 = [ex_grid]"
    by (simp add: windows_of_def stats_grid_def ex_setting)
  have zero: "\<forall>g \<in> set (windows_of ?env ?rast None ex_hollow_geom 100).
           \<exists>cov. raster_cell_intersection ?env g ex_hollow_geom = Some cov \<and>
                 (\<forall>c \<in> set (rvalues cov). c = 0)"
    by (simp add: wins) (simp add: ex_setting)
  have ok: "(1::int) \<le> 100 \<and> layers_compatible ?rast None \<and>
          \<not> (disaggregated ?env ?rast None \<and> (''count'' \<in> set ?stats \<or> ''sum'' \<in> set ?stats)) \<and>
          (''quantile'' \<in> set ?stats \<longrightarrow> ?q \<noteq> None \<and> ?q \<noteq> Some []) \<and>
          set ?stats \<subseteq> set supported_stats"
    by (simp add: layers_compatible_def disaggregated_def stats_grid_def supported_stats_def)
  note inst = CPP_stats_zero_coverage [OF geom zero, where stats = ?stats and quantiles = ?q
      and default_value = 0 and default_weight = 0
      and interp = "\<lambda>m q. case m of [] \<Rightarrow> 0 | x # _ \<Rightarrow> fst x + q * (fst (last m) - fst x)"
      and sqrt_fn = "\<lambda>x. if x \<le> 0 then 0 else (x + 1) / 2", folded ex_stats_def]
  from inst ok obtain m where
    m: "snd (CPP_stats ?env ex_stats ?rast None [1] 0 0 ?stats 100 ?q) = Inr m"
    by blast
  with inst have "length (cells m) = max (get_nlayers ?rast) (nweights_of None) \<and>
    (\<forall>row \<in> set (cells m). row = concat (map (zero_coverage_cells ?q) ?stats))"
    by blast
  then have "length (cells m) = 2 \<and>
    (\<forall>row \<in> set (cells m). row = [Dbl 0, NA_REAL, NA_REAL, NA_REAL, Dbl 0, NA_REAL, NA_REAL])"
    by (simp add: nweights_of_def ex_raster_def zero_coverage_cells_def stat_width_def
        numeral_2_eq_2)
  then have "cells m = [[Dbl 0, NA_REAL, NA_REAL, NA_REAL, Dbl 0, NA_REAL, NA_REAL],
                        [Dbl 0, NA_REAL, NA_REAL, NA_REAL, Dbl 0, NA_REAL, NA_REAL]]"
    by (cases "cells m"; cases "tl (cells m)") auto
  with m have first: "\<exists>m. snd (CPP_stats ?env ex_stats ?rast None [1] 0 0 ?stats 100 ?q) = Inr m \<and>
        cells m = [[Dbl 0, NA_REAL, NA_REAL, NA_REAL, Dbl 0, NA_REAL, NA_REAL],
                   [Dbl 0, NA_REAL, NA_REAL, NA_REAL, Dbl 0, NA_REAL, NA_REAL]]"
    by blast
  let ?env' = "ex_env ex_far_geom"
  let ?rast' = "ex_raster ex_grid [[3, 5]]"
  have geom': "read_wkb ?env' [1] = Some ex_far_geom"
    by (simp add: ex_env_def)
  have wins': "windows_of ?env' ?rast' None ex_far_geom 100 = []"
    by (simp add: windows_of_def stats_grid_def ex_setting)
  have zero': "\<forall>g \<in> set (windows_of ?env' ?rast' None ex_far_geom 100).
           \<exists>cov. raster_cell_intersection ?env' g ex_far_geom = Some cov \<and>
                 (\<forall>c \<in> set (rvalues cov). c = 0)"
    by (simp add: wins')
  have ok': "(1::int) \<le> 100 \<and> layers_compatible ?rast' None \<and>
          \<not> (disaggregated ?env' ?rast' None \<and>
             (''count'' \<in> set [''mean'', ''count''] \<or> ''sum'' \<in> set [''mean'', ''count''])) \<and>
          (''quantile'' \<in> set [''mean'', ''count''] \<longrightarrow>
             (None :: real list option) \<noteq> None \<and> None \<noteq> Some ([] :: real list)) \<and>
          set [''mean'', ''count''] \<subseteq> set supported_stats"
    by (simp add: layers_compatible_def disaggregated_def stats_grid_def supported_stats_def)
  note inst' = CPP_stats_zero_coverage [OF geom' zero', where stats = "[''mean'', ''count'']"
      and quantiles = None and default_value = 0 and default_weight = 0
      and interp = "\<lambda>m q. case m of [] \<Rightarrow> 0 | x # _ \<Rightarrow> fst x + q * (fst (last m) - fst x)"
      and sqrt_fn = "\<lambda>x. if x \<le> 0 then 0 else (x + 1) / 2", folded ex_stats_def]
  from inst' ok' obtain m' where
    m': "snd (CPP_stats ?env' ex_stats ?rast' None [1] 0 0 [''mean'', ''count''] 100 None) = Inr m'"
    by blast
  with inst' have "length (cells m') = max (get_nlayers ?rast') (nweights_of None) \<and>
    (\<forall>row \<in> set (cells m'). row = concat (map (zero_coverage_cells None) [''mean'', ''count'']))"
    by blast
  then have "length (cells m') = 1 \<and> (\<forall>row \<in> set (cells m'). row = [NA_REAL, Dbl 0])"
    by (simp add: nweights_of_def ex_raster_def zero_coverage_cells_def stat_width_def)
  then have "cells m' = [[NA_REAL, Dbl 0]]"
    by (cases "cells m'") auto
  with m' first show ?thesis by blast
qed

section \<open>The columns of the extraction table\<close>

lemma set_col_fresh:
  "name \<notin> set (map fst cols) \<Longrightarrow> set_col name v cols = cols @ [(name, v)]"
  by (induction cols) auto

lemma set_set_col:
  "set (set_col name v cols) \<subseteq> insert (name, v) (set cols)"
  by (induction cols) (auto split: if_splits)

lemma map_of_set_col:
  "map_of (set_col name v cols) name = Some v"
  by (induction cols) auto

lemma row_columns_Nil:
  "row_columns k passed []"
  by (simp add: row_columns_def)

lemma row_columns_append:
  "row_columns k passed (a @ b) = (row_columns k passed a \<and> row_columns k passed b)"
  by (auto simp: row_columns_def)

lemma row_columns_set_col_Numeric:
  "row_columns k passed cols \<Longrightarrow> length v = k \<Longrightarrow>
     row_columns k passed (set_col name (Numeric v) cols)"
  using set_set_col [of name "Numeric v" cols]
  by (fastforce simp: row_columns_def)

lemma row_columns_set_col_PassThrough:
  "row_columns k passed cols \<Longrightarrow> a \<in> passed \<Longrightarrow>
     row_columns k passed (set_col name (PassThrough a) cols)"
  using set_set_col [of name "PassThrough a" cols]
  by (fastforce simp: row_columns_def)

lemma length_filter_zip_snd:
  "length v = length covered \<Longrightarrow>
     length (filter snd (zip v covered)) = length (filter (\<lambda>b. b) covered)"
  by (induction v covered rule: list_induct2) auto

lemma subset_covered_length:
  "subset_covered v covered = Inr r \<Longrightarrow> length r = length (filter (\<lambda>b. b) covered)"
  by (auto simp: subset_covered_def length_filter_zip_snd split: if_splits)

lemma length_filter_covered:
  "length (filter (\<lambda>b. b) (map (\<lambda>c. 0 < c) cov)) = length (filter (\<lambda>c. 0 < c) (cov :: real list))"
  by (induction cov) auto

lemma filter_zip_covered:
  "map fst (filter snd (zip vs (map (\<lambda>c. 0 < c) cov)))
     = map fst (filter (\<lambda>(v, c). 0 < c) (zip vs (cov :: real list)))"
proof (induction vs arbitrary: cov)
  case Nil
  then show ?case by simp
next
  case (Cons v vs)
  then show ?case by (cases cov) auto
qed

lemma subset_covered_cells:
  "subset_covered vs (map (\<lambda>c. 0 < c) cov) = Inr r \<Longrightarrow> r = covered_cells cov vs"
  by (auto simp: subset_covered_def covered_cells_def filter_zip_covered split: if_splits)

lemma subset_covered_coverage:
  "subset_covered cov (map (\<lambda>c. 0 < c) cov) = Inr (filter (\<lambda>c. 0 < c) (cov :: real list))"
proof -
  have "map fst (filter snd (zip cov (map (\<lambda>c. 0 < c) cov))) = filter (\<lambda>c. 0 < c) cov"
    by (induction cov) auto
  then show ?thesis by (simp add: subset_covered_def)
qed

lemma layer_vec_column:
  "layer_vec env r dv (make_grid r) common (rgrid cov) (map (\<lambda>c. 0 < c) (rvalues cov)) i = Inr v
     \<Longrightarrow> v = layer_column env r dv common cov i"
  by (auto simp: layer_vec_def layer_column_def Let_def dest: subset_covered_cells
      split: if_splits)

lemma layer_vec_length:
  "layer_vec env r dv g common cov_grid covered i = Inr v \<Longrightarrow>
     length v = length (filter (\<lambda>b. b) covered)"
  by (auto simp: layer_vec_def Let_def dest: subset_covered_length)

lemma include_columns_fold:
  assumes "distinct (map fst l')"
    and "\<forall>(n, v) \<in> set l'. map_of l n = Some v"
    and "set (map fst l') \<inter> set (map fst cols) = {}"
  shows "fold (\<lambda>name cols. case map_of l name of None \<Rightarrow> cols
                             | Some v \<Rightarrow> set_col name (PassThrough v) cols)
           (map fst l') cols
         = cols @ map (\<lambda>(n, v). (n, PassThrough v)) l'"
  using assms
proof (induction l' arbitrary: cols)
  case Nil
  then show ?case by simp
next
  case (Cons p l')
  obtain n v where p: "p = (n, v)" by (cases p)
  from Cons.prems p have m: "map_of l n = Some v" and fresh: "n \<notin> set (map fst cols)"
    by auto
  have step: "set_col n (PassThrough v) cols = cols @ [(n, PassThrough v)]"
    by (rule set_col_fresh [OF fresh])
  from Cons.prems p have
    "distinct (map fst l')" "\<forall>(n, v) \<in> set l'. map_of l n = Some v"
    "set (map fst l') \<inter> set (map fst (cols @ [(n, PassThrough v)])) = {}"
    by auto
  from Cons.IH [OF this] show ?case
    by (simp add: p m step)
qed

lemma include_columns_distinct:
  assumes "distinct (include_col_names include_cols)"
  shows "include_columns include_cols [] =
           (case include_cols of None \<Rightarrow> [] | Some l \<Rightarrow> map (\<lambda>(n, v). (n, PassThrough v)) l)"
proof (cases include_cols)
  case None
  then show ?thesis by (simp add: include_columns_def)
next
  case (Some l)
  with assms have d: "distinct (map fst l)" by (simp add: include_col_names_def)
  then have "\<forall>(n, v) \<in> set l. map_of l n = Some v" by auto
  from include_columns_fold [OF d this, of "[]"] Some show ?thesis
    by (simp add: include_columns_def)
qed

lemma map_fst_include_columns:
  assumes "distinct (include_col_names include_cols)"
  shows "map fst (include_columns include_cols []) = include_col_names include_cols"
  by (simp add: include_columns_distinct [OF assms] include_col_names_def case_prod_beta
      split: option.splits)

lemma include_fold_rows:
  "row_columns k (snd ` set l) cols \<Longrightarrow>
     row_columns k (snd ` set l)
       (fold (\<lambda>name cols. case map_of l name of None \<Rightarrow> cols
                            | Some v \<Rightarrow> set_col name (PassThrough v) cols) names cols)"
proof (induction names arbitrary: cols)
  case Nil
  then show ?case by simp
next
  case (Cons name names)
  show ?case
  proof (cases "map_of l name")
    case None
    with Cons show ?thesis by simp
  next
    case (Some v)
    then have "v \<in> snd ` set l" by (force dest: map_of_SomeD)
    from row_columns_set_col_PassThrough [OF Cons.prems this] Cons.IH Some
    show ?thesis by simp
  qed
qed

lemma include_columns_rows:
  "row_columns k (case include_cols of None \<Rightarrow> {} | Some l \<Rightarrow> snd ` set l)
     (include_columns include_cols [])"
  by (cases include_cols)
     (simp_all add: include_columns_def row_columns_Nil include_fold_rows)

lemma value_columns_bounds:
  "value_columns env rast dv common cov_grid covered src_names is cols = Inr cols' \<Longrightarrow>
     \<forall>i \<in> set is. i < length src_names"
  by (induction "is" arbitrary: cols)
     (auto simp: bind_error_def name_at_def split: sum.splits if_splits)

lemma weight_columns_bounds:
  "weight_columns env w dw common cov_grid covered weights_names is cols = Inr cols' \<Longrightarrow>
     \<forall>i \<in> set is. i < length weights_names"
  by (induction "is" arbitrary: cols)
     (auto simp: bind_error_def name_at_def Let_def split: sum.splits if_splits)

lemma value_columns_rows:
  assumes "value_columns env rast dv common cov_grid covered src_names is cols = Inr cols'"
    and "row_columns (length (filter (\<lambda>b. b) covered)) passed cols"
  shows "row_columns (length (filter (\<lambda>b. b) covered)) passed cols'"
  using assms
proof (induction "is" arbitrary: cols)
  case Nil
  then show ?case by simp
next
  case (Cons i "is")
  from Cons.prems(1) obtain vec where
    vec: "layer_vec env rast dv (make_grid rast) common cov_grid covered i = Inr vec"
    and rest: "value_columns env rast dv common cov_grid covered src_names is
                 (set_col (src_names ! i) (Numeric vec) cols) = Inr cols'"
    by (auto simp: bind_error_def name_at_def split: sum.splits if_splits)
  from row_columns_set_col_Numeric [OF Cons.prems(2) layer_vec_length [OF vec]]
  show ?case by (rule Cons.IH [OF rest])
qed

lemma weight_columns_rows:
  assumes "weight_columns env w dw common cov_grid covered weights_names is cols = Inr cols'"
    and "row_columns (length (filter (\<lambda>b. b) covered)) passed cols"
  shows "row_columns (length (filter (\<lambda>b. b) covered)) passed cols'"
  using assms
proof (induction "is" arbitrary: cols)
  case Nil
  then show ?case by simp
next
  case (Cons i "is")
  from Cons.prems(1) obtain vec colname where
    vec: "layer_vec env w dw (make_grid w) common cov_grid covered i = Inr vec"
    and rest: "weight_columns env w dw common cov_grid covered weights_names is
                 (set_col colname (Numeric vec) cols) = Inr cols'"
    by (auto simp: bind_error_def name_at_def Let_def split: sum.splits if_splits)
  from row_columns_set_col_Numeric [OF Cons.prems(2) layer_vec_length [OF vec]]
  show ?case by (rule Cons.IH [OF rest])
qed

lemma xy_columns_rows:
  assumes "xy_columns rast weights cov_grid covered cols = Inr cols'"
    and "row_columns (length (filter (\<lambda>b. b) covered)) passed cols"
  shows "row_columns (length (filter (\<lambda>b. b) covered)) passed cols'"
proof -
  from assms(1) obtain x y where
    x: "length x = length (filter (\<lambda>b. b) covered)"
    and y: "length y = length (filter (\<lambda>b. b) covered)"
    and c: "cols' = set_col ''y'' (Numeric y) (set_col ''x'' (Numeric x) cols)"
    by (auto simp: xy_columns_def Let_def bind_error_def split: sum.splits
        dest: subset_covered_length)
  from row_columns_set_col_Numeric [OF row_columns_set_col_Numeric [OF assms(2) x] y] c
  show ?thesis by simp
qed

lemma value_columns_fresh:
  assumes "value_columns env rast dv common (rgrid cov) (map (\<lambda>c. 0 < c) (rvalues cov))
             src_names is cols = Inr cols'"
    and "distinct (map fst cols @ map ((!) src_names) is)"
  shows "cols' = cols @ map (\<lambda>i. (src_names ! i, Numeric (layer_column env rast dv common cov i))) is"
  using assms
proof (induction "is" arbitrary: cols)
  case Nil
  then show ?case by simp
next
  case (Cons i "is")
  let ?covered = "map (\<lambda>c. 0 < c) (rvalues cov)"
  from Cons.prems(1) obtain vec where
    vec: "layer_vec env rast dv (make_grid rast) common (rgrid cov) ?covered i = Inr vec"
    and rest: "value_columns env rast dv common (rgrid cov) ?covered src_names is
                 (set_col (src_names ! i) (Numeric vec) cols) = Inr cols'"
    by (auto simp: bind_error_def name_at_def split: sum.splits if_splits)
  from layer_vec_column [OF vec] have v: "vec = layer_column env rast dv common cov i" .
  from Cons.prems(2) have "src_names ! i \<notin> set (map fst cols)" by auto
  from set_col_fresh [OF this] have
    c1: "set_col (src_names ! i) (Numeric vec) cols = cols @ [(src_names ! i, Numeric vec)]" .
  from Cons.prems(2) have
    "distinct (map fst (cols @ [(src_names ! i, Numeric vec)]) @ map ((!) src_names) is)"
    by auto
  from Cons.IH [OF rest [unfolded c1] this] v show ?case by simp
qed

lemma weight_columns_fresh:
  assumes "weight_columns env w dw common (rgrid cov) (map (\<lambda>c. 0 < c) (rvalues cov))
             weights_names is cols = Inr cols'"
    and "distinct (map fst cols @ weight_colnames (map fst cols) (map ((!) weights_names) is))"
  shows "cols' = cols @ map (\<lambda>(name, i). (name, Numeric (layer_column env w dw common cov i)))
                         (zip (weight_colnames (map fst cols) (map ((!) weights_names) is)) is)"
  using assms
proof (induction "is" arbitrary: cols)
  case Nil
  then show ?case by simp
next
  case (Cons i "is")
  let ?covered = "map (\<lambda>c. 0 < c) (rvalues cov)"
  let ?name = "weights_names ! i"
  let ?colname = "if ?name \<in> set (map fst cols) then ?name @ ''.1'' else ?name"
  from Cons.prems(1) obtain vec where
    vec: "layer_vec env w dw (make_grid w) common (rgrid cov) ?covered i = Inr vec"
    and rest: "weight_columns env w dw common (rgrid cov) ?covered weights_names is
                 (set_col ?colname (Numeric vec) cols) = Inr cols'"
    by (auto simp: bind_error_def name_at_def containsElementNamed_def Let_def
        split: sum.splits if_splits)
  from layer_vec_column [OF vec] have v: "vec = layer_column env w dw common cov i" .
  from Cons.prems(2) have "?colname \<notin> set (map fst cols)"
    by (auto simp: Let_def split: if_splits)
  from set_col_fresh [OF this] have
    c1: "set_col ?colname (Numeric vec) cols = cols @ [(?colname, Numeric vec)]" .
  from Cons.prems(2) have
    "distinct (map fst (cols @ [(?colname, Numeric vec)]) @
               weight_colnames (map fst (cols @ [(?colname, Numeric vec)]))
                 (map ((!) weights_names) is))"
    by (auto simp: Let_def split: if_splits)
  from Cons.IH [OF rest [unfolded c1] this] v show ?case
    by (simp add: Let_def)
qed

lemma length_weight_colnames:
  "length (weight_colnames placed names) = length names"
  by (induction names arbitrary: placed) (auto simp: Let_def)

lemma map_nth_upt_take:
  "\<forall>i \<in> set [0..<n]. i < length xs \<Longrightarrow> map ((!) xs) [0..<n] = take n xs"
  by (intro nth_equalityI) auto

lemma xy_columns_fresh:
  assumes "xy_columns rast weights (rgrid cov) (map (\<lambda>c. 0 < c) (rvalues cov)) cols = Inr cols'"
    and "''x'' \<notin> set (map fst cols)" and "''y'' \<notin> set (map fst cols)"
  shows "cols' = cols @
           [(''x'', Numeric (covered_cells (rvalues cov)
                              (get_x_values (finer_raster rast weights) (rgrid cov)))),
            (''y'', Numeric (covered_cells (rvalues cov)
                              (get_y_values (finer_raster rast weights) (rgrid cov))))]"
proof -
  let ?covered = "map (\<lambda>c. 0 < c) (rvalues cov)"
  let ?src = "finer_raster rast weights"
  from assms(1) obtain x y where
    x: "subset_covered (get_x_values ?src (rgrid cov)) ?covered = Inr x"
    and y: "subset_covered (get_y_values ?src (rgrid cov)) ?covered = Inr y"
    and c: "cols' = set_col ''y'' (Numeric y) (set_col ''x'' (Numeric x) cols)"
    by (auto simp: xy_columns_def finer_raster_def Let_def bind_error_def split: sum.splits)
  from set_col_fresh [OF assms(2)] have
    c1: "set_col ''x'' (Numeric x) cols = cols @ [(''x'', Numeric x)]" .
  from assms(3) have "''y'' \<notin> set (map fst (cols @ [(''x'', Numeric x)]))" by simp
  from set_col_fresh [OF this] c c1 have
    "cols' = cols @ [(''x'', Numeric x), (''y'', Numeric y)]" by simp
  with subset_covered_cells [OF x] subset_covered_cells [OF y] show ?thesis by simp
qed

lemma distinct_prefix:
  "distinct (xs @ ys) \<Longrightarrow> distinct xs"
  by simp

lemma distinct_fresh:
  "distinct (xs @ ys) \<Longrightarrow> y \<in> set ys \<Longrightarrow> y \<notin> set xs"
  by auto

lemma CPP_exact_extract_steps:
  fixes include_cols :: "(string \<times> 'a) list option"
  assumes geom: "read_wkb env wkb = Some geom"
    and cov: "raster_cell_intersection env
                (crop env (stats_grid env rast weights) (geos_get_box env geom)) geom = Some cov"
    and res: "snd (CPP_exact_extract env rast weights wkb default_value default_weight include_xy
                     include_cell_number include_cols src_names p_weights_names
                     warn_on_disaggregate) = Inr cols"
  obtains weights_names c1 c2 c3 c4 where
    "weights_names_of weights p_weights_names = Inr weights_names"
    and "value_columns env rast default_value
           (crop env (stats_grid env rast weights) (geos_get_box env geom)) (rgrid cov)
           (map (\<lambda>c. 0 < c) (rvalues cov)) src_names [0..<get_nlayers rast]
           (include_columns include_cols []) = Inr c1"
    and "(case weights of None \<Rightarrow> Inr c1
          | Some w \<Rightarrow>
              weight_columns env w default_weight
                (crop env (stats_grid env rast weights) (geos_get_box env geom)) (rgrid cov)
                (map (\<lambda>c. 0 < c) (rvalues cov)) weights_names [0..<nweights_of weights] c1)
         = Inr c2"
    and "(if include_xy
          then xy_columns rast weights (rgrid cov) (map (\<lambda>c. 0 < c) (rvalues cov)) c2
          else Inr c2) = Inr c3"
    and "(if include_cell_number
          then bind_error (subset_covered (get_cell_numbers rast (rgrid cov))
                             (map (\<lambda>c. 0 < c) (rvalues cov)))
                 (\<lambda>cell. Inr (set_col ''cell'' (Numeric cell) c3))
          else Inr c3) = Inr c4"
    and "cols = set_col ''coverage_fraction'' (Numeric (filter (\<lambda>c. 0 < c) (rvalues cov))) c4"
proof -
  from res obtain weights_names where
    n: "weights_names_of weights p_weights_names = Inr weights_names"
    by (cases "weights_names_of weights p_weights_names")
       (auto simp: CPP_exact_extract_def Let_def)
  from res geom cov n that [OF n] show thesis
    by (auto simp: CPP_exact_extract_def Let_def bind_error_def subset_covered_coverage
        split: sum.splits)
qed


text \<open>
  Every table that is returned has one row for each covered cell, whatever the names are:
  a numeric column has one entry for each cell of the coverage grid whose fraction is
  greater than 0, any other column is a value the caller passed, and the column named
  \<^verbatim>\<open>coverage_fraction\<close> holds the fractions of the covered cells.
\<close>

lemma CPP_exact_extract_rows:
  fixes include_cols :: "(string \<times> 'a) list option"
  assumes geom: "read_wkb env wkb = Some geom"
    and cov: "raster_cell_intersection env
                (crop env (stats_grid env rast weights) (geos_get_box env geom)) geom = Some cov"
    and res: "snd (CPP_exact_extract env rast weights wkb default_value default_weight include_xy
                     include_cell_number include_cols src_names p_weights_names
                     warn_on_disaggregate) = Inr cols"
  shows "row_columns (length (filter (\<lambda>c. 0 < c) (rvalues cov)))
           (case include_cols of None \<Rightarrow> {} | Some l \<Rightarrow> snd ` set l) cols \<and>
         map_of cols ''coverage_fraction''
           = Some (Numeric (filter (\<lambda>c. 0 < c) (rvalues cov)))"
proof -
  let ?covered = "map (\<lambda>c. 0 < c) (rvalues cov)"
  let ?k = "length (filter (\<lambda>b. b) ?covered)"
  let ?passed = "case include_cols of None \<Rightarrow> {} | Some l \<Rightarrow> snd ` set l"
  let ?common = "crop env (stats_grid env rast weights) (geos_get_box env geom)"
  have k: "?k = length (filter (\<lambda>c. 0 < c) (rvalues cov))"
    by (rule length_filter_covered)
  from geom cov res obtain weights_names c1 c2 c3 c4 where
    vc: "value_columns env rast default_value ?common (rgrid cov) ?covered src_names
           [0..<get_nlayers rast] (include_columns include_cols []) = Inr c1"
    and wc: "(case weights of None \<Rightarrow> Inr c1
              | Some w \<Rightarrow> weight_columns env w default_weight ?common (rgrid cov) ?covered
                           weights_names [0..<nweights_of weights] c1) = Inr c2"
    and xy: "(if include_xy then xy_columns rast weights (rgrid cov) ?covered c2 else Inr c2)
             = Inr c3"
    and cell: "(if include_cell_number
                then bind_error (subset_covered (get_cell_numbers rast (rgrid cov)) ?covered)
                       (\<lambda>cell. Inr (set_col ''cell'' (Numeric cell) c3))
                else Inr c3) = Inr c4"
    and cols: "cols = set_col ''coverage_fraction''
                        (Numeric (filter (\<lambda>c. 0 < c) (rvalues cov))) c4"
    by (rule CPP_exact_extract_steps)
  have r0: "row_columns ?k ?passed (include_columns include_cols [])"
    by (rule include_columns_rows)
  from value_columns_rows [OF vc r0] have r1: "row_columns ?k ?passed c1" .
  have r2: "row_columns ?k ?passed c2"
  proof (cases weights)
    case None
    with wc r1 show ?thesis by simp
  next
    case (Some w)
    with wc have "weight_columns env w default_weight ?common (rgrid cov) ?covered
                    weights_names [0..<nweights_of weights] c1 = Inr c2" by simp
    from weight_columns_rows [OF this r1] show ?thesis .
  qed
  have r3: "row_columns ?k ?passed c3"
  proof (cases include_xy)
    case False
    with xy r2 show ?thesis by simp
  next
    case True
    with xy have "xy_columns rast weights (rgrid cov) ?covered c2 = Inr c3" by simp
    from xy_columns_rows [OF this r2] show ?thesis .
  qed
  have r4: "row_columns ?k ?passed c4"
  proof (cases include_cell_number)
    case False
    with cell r3 show ?thesis by simp
  next
    case True
    with cell obtain cn where
      cn: "subset_covered (get_cell_numbers rast (rgrid cov)) ?covered = Inr cn"
      and c4: "c4 = set_col ''cell'' (Numeric cn) c3"
      by (auto simp: bind_error_def split: sum.splits)
    from row_columns_set_col_Numeric [OF r3 subset_covered_length [OF cn]] c4
    show ?thesis by simp
  qed
  have "length (filter (\<lambda>c. 0 < c) (rvalues cov)) = ?k" by (simp only: k)
  from row_columns_set_col_Numeric [OF r4 this] cols
  have "row_columns ?k ?passed cols" by simp
  then have "row_columns (length (filter (\<lambda>c. 0 < c) (rvalues cov))) ?passed cols"
    by (simp only: k)
  moreover from cols have "map_of cols ''coverage_fraction''
           = Some (Numeric (filter (\<lambda>c. 0 < c) (rvalues cov)))"
    by (simp add: map_of_set_col)
  ultimately show ?thesis by (rule conjI)
qed

text \<open>
  When the names of the pass-through columns, of the value layers, of the weight layers
  after \<open>.1\<close> was appended to those already placed, and the names \<^verbatim>\<open>x\<close>,
  \<^verbatim>\<open>y\<close>, \<^verbatim>\<open>cell\<close> (when requested) and \<^verbatim>\<open>coverage_fraction\<close> are pairwise
  distinct, a returned table is \<open>extraction_table\<close>: the caller's columns, then for
  each value layer and each weight layer the cells of that layer at the covered cells,
  then the coordinates, the cell numbers and the coverage fractions, under these names
  and in this order.
\<close>

lemma CPP_exact_extract_table:
  fixes include_cols :: "(string \<times> 'a) list option"
  assumes geom: "read_wkb env wkb = Some geom"
    and cov: "raster_cell_intersection env
                (crop env (stats_grid env rast weights) (geos_get_box env geom)) geom = Some cov"
    and names: "weights_names_of weights p_weights_names = Inr weights_names"
    and res: "snd (CPP_exact_extract env rast weights wkb default_value default_weight include_xy
                     include_cell_number include_cols src_names p_weights_names
                     warn_on_disaggregate) = Inr cols"
    and dist: "distinct (column_names (include_col_names include_cols)
                           (take (get_nlayers rast) src_names)
                           (take (nweights_of weights) weights_names)
                           include_xy include_cell_number)"
  shows "cols = extraction_table env rast weights default_value default_weight include_xy
                  include_cell_number include_cols src_names weights_names
                  (crop env (stats_grid env rast weights) (geos_get_box env geom)) cov \<and>
         map fst cols = column_names (include_col_names include_cols)
                          (take (get_nlayers rast) src_names)
                          (take (nweights_of weights) weights_names)
                          include_xy include_cell_number"
proof -
  let ?inc = "include_col_names include_cols"
  let ?val = "take (get_nlayers rast) src_names"
  let ?wn = "weights_names"
  let ?wts = "weight_colnames (?inc @ ?val) (take (nweights_of weights) ?wn)"
  let ?xy = "if include_xy then [''x'', ''y''] else []"
  let ?cell = "if include_cell_number then [''cell''] else []"
  let ?common = "crop env (stats_grid env rast weights) (geos_get_box env geom)"
  let ?cf = "rvalues cov"
  let ?covered = "map (\<lambda>c. 0 < c) ?cf"
  let ?c0 = "include_columns include_cols [] :: (string \<times> 'a column) list"
  let ?t0 = "(case include_cols of None \<Rightarrow> [] | Some l \<Rightarrow> map (\<lambda>(n, v). (n, PassThrough v)) l)
             :: (string \<times> 'a column) list"
  let ?t1 = "map (\<lambda>i. (src_names ! i, Numeric (layer_column env rast default_value ?common cov i)))
               [0..<get_nlayers rast] :: (string \<times> 'a column) list"
  let ?t2 = "(case weights of
               None \<Rightarrow> []
             | Some w \<Rightarrow>
                 map (\<lambda>(name, i). (name, Numeric (layer_column env w default_weight ?common cov i)))
                   (zip (weight_colnames (?inc @ ?val) (take (get_nlayers w) ?wn))
                      [0..<get_nlayers w])) :: (string \<times> 'a column) list"
  let ?t3 = "(if include_xy
              then [(''x'', Numeric (covered_cells ?cf
                                      (get_x_values (finer_raster rast weights) (rgrid cov)))),
                    (''y'', Numeric (covered_cells ?cf
                                      (get_y_values (finer_raster rast weights) (rgrid cov))))]
              else []) :: (string \<times> 'a column) list"
  let ?t4 = "(if include_cell_number
              then [(''cell'', Numeric (covered_cells ?cf (get_cell_numbers rast (rgrid cov))))]
              else []) :: (string \<times> 'a column) list"
  let ?t5 = "[(''coverage_fraction'', Numeric (filter (\<lambda>c. 0 < c) ?cf))]
             :: (string \<times> 'a column) list"
  from dist have d: "distinct (?inc @ ?val @ ?wts @ ?xy @ ?cell @ [''coverage_fraction''])"
    by (simp add: column_names_def)
  from d have dinc: "distinct ?inc" by (rule distinct_prefix)
  from d have "distinct ((?inc @ ?val) @ ?wts @ ?xy @ ?cell @ [''coverage_fraction''])"
    by (simp only: append_assoc)
  then have dv: "distinct (?inc @ ?val)" by (rule distinct_prefix)
  from d have "distinct (((?inc @ ?val) @ ?wts) @ ?xy @ ?cell @ [''coverage_fraction''])"
    by (simp only: append_assoc)
  then have dw: "distinct ((?inc @ ?val) @ ?wts)" by (rule distinct_prefix)
  from d have dxy: "distinct ((?inc @ ?val @ ?wts) @ ?xy @ ?cell @ [''coverage_fraction''])"
    by (simp only: append_assoc)
  from d have dcell: "distinct ((?inc @ ?val @ ?wts @ ?xy) @ ?cell @ [''coverage_fraction''])"
    by (simp only: append_assoc)
  from d have dcf: "distinct ((?inc @ ?val @ ?wts @ ?xy @ ?cell) @ [''coverage_fraction''])"
    by (simp only: append_assoc)
  have c0: "?c0 = ?t0" by (rule include_columns_distinct [OF dinc])
  have n0: "map fst ?c0 = ?inc" by (rule map_fst_include_columns [OF dinc])
  from geom cov res obtain wn' c1 c2 c3 c4 where
    wn': "weights_names_of weights p_weights_names = Inr wn'"
    and vc: "value_columns env rast default_value ?common (rgrid cov) ?covered src_names
           [0..<get_nlayers rast] ?c0 = Inr c1"
    and wc0: "(case weights of None \<Rightarrow> Inr c1
              | Some w \<Rightarrow> weight_columns env w default_weight ?common (rgrid cov) ?covered
                           wn' [0..<nweights_of weights] c1) = Inr c2"
    and xy: "(if include_xy then xy_columns rast weights (rgrid cov) ?covered c2 else Inr c2)
             = Inr c3"
    and cell: "(if include_cell_number
                then bind_error (subset_covered (get_cell_numbers rast (rgrid cov)) ?covered)
                       (\<lambda>cell. Inr (set_col ''cell'' (Numeric cell) c3))
                else Inr c3) = Inr c4"
    and cols: "cols = set_col ''coverage_fraction'' (Numeric (filter (\<lambda>c. 0 < c) ?cf)) c4"
    by (rule CPP_exact_extract_steps)
  from wn' names have eq: "wn' = weights_names" by simp
  note wc = wc0 [unfolded eq]
  \<comment> \<open>the value layers\<close>
  from value_columns_bounds [OF vc] have
    v: "map ((!) src_names) [0..<get_nlayers rast] = ?val"
    by (rule map_nth_upt_take)
  from dv have "distinct (map fst ?c0 @ map ((!) src_names) [0..<get_nlayers rast])"
    by (simp only: n0 v)
  from value_columns_fresh [OF vc this] have c1: "c1 = ?c0 @ ?t1" .
  have nt1: "map fst ?t1 = ?val" using v by (simp add: comp_def)
  from c1 n0 nt1 have n1: "map fst c1 = ?inc @ ?val" by simp
  \<comment> \<open>the weight layers\<close>
  have w2: "c2 = c1 @ ?t2 \<and> map fst ?t2 = ?wts"
  proof (cases weights)
    case None
    with wc show ?thesis by (simp add: nweights_of_def)
  next
    case (Some w)
    then have nw: "nweights_of weights = get_nlayers w" by (simp add: nweights_of_def)
    from Some wc have wc': "weight_columns env w default_weight ?common (rgrid cov) ?covered ?wn
                              [0..<get_nlayers w] c1 = Inr c2" by (simp add: nweights_of_def)
    from weight_columns_bounds [OF wc'] have
      w: "map ((!) ?wn) [0..<get_nlayers w] = take (get_nlayers w) ?wn"
      by (rule map_nth_upt_take)
    from dw have
      "distinct (map fst c1 @ weight_colnames (map fst c1) (map ((!) ?wn) [0..<get_nlayers w]))"
      by (simp only: n1 w nw)
    from weight_columns_fresh [OF wc' this] have
      "c2 = c1 @ map (\<lambda>(name, i). (name, Numeric (layer_column env w default_weight ?common cov i)))
                   (zip (weight_colnames (?inc @ ?val) (take (get_nlayers w) ?wn))
                      [0..<get_nlayers w])"
      by (simp only: n1 w)
    moreover from weight_columns_bounds [OF wc'] have "get_nlayers w \<le> length ?wn"
      by (cases "get_nlayers w") auto
    then have "map fst (map (\<lambda>(name, i). (name, Numeric (layer_column env w default_weight ?common cov i)))
                   (zip (weight_colnames (?inc @ ?val) (take (get_nlayers w) ?wn))
                      [0..<get_nlayers w])
                 :: (string \<times> 'a column) list)
               = weight_colnames (?inc @ ?val) (take (get_nlayers w) ?wn)"
      by (simp add: comp_def case_prod_beta length_weight_colnames
          map_fst_zip [unfolded comp_def])
    ultimately show ?thesis using Some by (simp add: nweights_of_def)
  qed
  then have c2: "c2 = c1 @ ?t2" and nt2: "map fst ?t2 = ?wts" by simp_all
  from c2 n1 nt2 have n2: "map fst c2 = ?inc @ ?val @ ?wts" by simp
  \<comment> \<open>the coordinates\<close>
  have c3: "c3 = c2 @ ?t3"
  proof (cases include_xy)
    case False
    with xy show ?thesis by simp
  next
    case True
    with xy have xy': "xy_columns rast weights (rgrid cov) ?covered c2 = Inr c3" by simp
    from True have mx: "''x'' \<in> set (?xy @ ?cell @ [''coverage_fraction''])" by simp
    from True have my: "''y'' \<in> set (?xy @ ?cell @ [''coverage_fraction''])" by simp
    from distinct_fresh [OF dxy mx] have fx: "''x'' \<notin> set (map fst c2)" unfolding n2 .
    from distinct_fresh [OF dxy my] have fy: "''y'' \<notin> set (map fst c2)" unfolding n2 .
    from xy_columns_fresh [OF xy' fx fy] True show ?thesis by simp
  qed
  have nt3: "map fst ?t3 = ?xy" by simp
  from c3 n2 nt3 have n3: "map fst c3 = ?inc @ ?val @ ?wts @ ?xy" by simp
  \<comment> \<open>the cell numbers\<close>
  have c4: "c4 = c3 @ ?t4"
  proof (cases include_cell_number)
    case False
    with cell show ?thesis by simp
  next
    case True
    with cell obtain cn where
      cn: "subset_covered (get_cell_numbers rast (rgrid cov)) ?covered = Inr cn"
      and c4: "c4 = set_col ''cell'' (Numeric cn) c3"
      by (auto simp: bind_error_def split: sum.splits)
    from True have "''cell'' \<in> set (?cell @ [''coverage_fraction''])" by simp
    from distinct_fresh [OF dcell this] have "''cell'' \<notin> set (map fst c3)" unfolding n3 .
    from set_col_fresh [OF this] c4 subset_covered_cells [OF cn] True show ?thesis by simp
  qed
  have nt4: "map fst ?t4 = ?cell" by simp
  from c4 n3 nt4 have n4: "map fst c4 = ?inc @ ?val @ ?wts @ ?xy @ ?cell" by simp
  \<comment> \<open>the coverage fraction\<close>
  have "''coverage_fraction'' \<in> set [''coverage_fraction'']" by simp
  from distinct_fresh [OF dcf this] have "''coverage_fraction'' \<notin> set (map fst c4)"
    unfolding n4 .
  from set_col_fresh [OF this] cols have c5: "cols = c4 @ ?t5" by simp
  from c5 c4 c3 c2 c1 c0 have all: "cols = ?t0 @ ?t1 @ ?t2 @ ?t3 @ ?t4 @ ?t5" by simp
  then have table: "cols = extraction_table env rast weights default_value default_weight
                      include_xy include_cell_number include_cols src_names weights_names
                      ?common cov"
    by (simp only: extraction_table_def)
  from c5 n4 have "map fst cols = ?inc @ ?val @ ?wts @ ?xy @ ?cell @ [''coverage_fraction'']"
    by simp
  then have "map fst cols = column_names ?inc ?val (take (nweights_of weights) ?wn)
                              include_xy include_cell_number"
    by (simp add: column_names_def)
  with table show ?thesis by (rule conjI)
qed


lemmas ex_extract =
  CPP_exact_extract_def weights_names_of_def include_columns_def layer_vec_def
  subset_covered_def bind_error_def name_at_def containsElementNamed_def xy_columns_def
  stats_grid_def nweights_of_def Let_def

text \<open>
  The table for a polygon over half of the first of two cells, with a pass-through
  column, two value layers, a weight layer named like the first value layer, the
  coordinates and the cell numbers.
\<close>

lemma CPP_exact_extract_example:
  "snd (CPP_exact_extract (ex_env ex_half_geom) (ex_raster ex_grid [[3, 5], [7, 8]])
          (Some (ex_raster ex_grid [[1, 2]])) [1] 0 0 True True
          (Some [(''id'', 7 :: nat)]) [''a'', ''b''] (Some [''a'']) False)
     = Inr [(''id'', PassThrough 7), (''a'', Numeric [3]), (''b'', Numeric [7]),
            (''a.1'', Numeric [1]), (''x'', Numeric [1 / 2]), (''y'', Numeric [1 / 2]),
            (''cell'', Numeric [1]), (''coverage_fraction'', Numeric [1 / 2])] \<and>
   extraction_table (ex_env ex_half_geom) (ex_raster ex_grid [[3, 5], [7, 8]])
     (Some (ex_raster ex_grid [[1, 2]])) 0 0 True True (Some [(''id'', 7 :: nat)])
     [''a'', ''b''] [''a'']
     (crop (ex_env ex_half_geom)
        (stats_grid (ex_env ex_half_geom) (ex_raster ex_grid [[3, 5], [7, 8]])
           (Some (ex_raster ex_grid [[1, 2]])))
        (geos_get_box (ex_env ex_half_geom) ex_half_geom))
     \<lparr>rgrid = crop (ex_env ex_half_geom)
                (stats_grid (ex_env ex_half_geom) (ex_raster ex_grid [[3, 5], [7, 8]])
                   (Some (ex_raster ex_grid [[1, 2]])))
                (geos_get_box (ex_env ex_half_geom) ex_half_geom),
      rvalues = [1 / 2, 0]\<rparr>
     = [(''id'', PassThrough 7), (''a'', Numeric [3]), (''b'', Numeric [7]),
        (''a.1'', Numeric [1]), (''x'', Numeric [1 / 2]), (''y'', Numeric [1 / 2]),
        (''cell'', Numeric [1]), (''coverage_fraction'', Numeric [1 / 2])] \<and>
   row_columns 1 {7}
     [(''id'', PassThrough (7 :: nat)), (''a'', Numeric [3]), (''b'', Numeric [7]),
      (''a.1'', Numeric [1]), (''x'', Numeric [1 / 2]), (''y'', Numeric [1 / 2]),
      (''cell'', Numeric [1]), (''coverage_fraction'', Numeric [1 / 2])]"
proof -
  let ?env = "ex_env ex_half_geom"
  let ?rast = "ex_raster ex_grid [[3, 5], [7, 8]]"
  let ?w = "Some (ex_raster ex_grid [[1, 2]])"
  let ?inc = "Some [(''id'', 7 :: nat)]"
  let ?common = "crop ?env (stats_grid ?env ?rast ?w) (geos_get_box ?env ex_half_geom)"
  let ?cov = "\<lparr>rgrid = ?common, rvalues = [1 / 2, 0]\<rparr>"
  let ?cols = "[(''id'', PassThrough (7 :: nat)), (''a'', Numeric [3]), (''b'', Numeric [7]),
                (''a.1'', Numeric [1]), (''x'', Numeric [1 / 2]), (''y'', Numeric [1 / 2]),
                (''cell'', Numeric [1]), (''coverage_fraction'', Numeric [1 / 2])]"
  have geom: "read_wkb ?env [1] = Some ex_half_geom"
    by (simp add: ex_env_def)
  have cov: "raster_cell_intersection ?env ?common ex_half_geom = Some ?cov"
    by (simp add: ex_env_def ex_half_geom_def)
  have names: "weights_names_of ?w (Some [''a'']) = Inr [''a'']"
    by (simp add: weights_names_of_def)
  have run: "snd (CPP_exact_extract ?env ?rast ?w [1] 0 0 True True ?inc [''a'', ''b'']
                    (Some [''a'']) False) = Inr ?cols"
    by (simp add: ex_extract ex_setting)
  have dist: "distinct (column_names (include_col_names ?inc) (take (get_nlayers ?rast) [''a'', ''b''])
                          (take (nweights_of ?w) [''a'']) True True)"
    by (simp add: column_names_def include_col_names_def nweights_of_def ex_raster_def)
  from CPP_exact_extract_table [OF geom cov names run dist]
  have table: "extraction_table ?env ?rast ?w 0 0 True True ?inc [''a'', ''b''] [''a'']
                 ?common ?cov = ?cols"
    by simp
  from CPP_exact_extract_rows [OF geom cov run]
  have "row_columns 1 {7} ?cols"
    by simp
  with run table show ?thesis by simp
qed

text \<open>
  C7: the claim puts the caller's pass-through columns first, followed by one column for
  each value layer, one for each weight layer, and the coverage fraction last. In the
  first call below a pass-through column and the value layer are both named
  \<^verbatim>\<open>elevation\<close>: the assignment of line 132 replaces the caller's column and the
  table has two columns, not three. In the second call it is the weight layer that has
  this name: lines 151-159 append \<open>.1\<close> and the caller's column stays.
\<close>

theorem CPP_exact_extract_name_clash:
  "snd (CPP_exact_extract (ex_env ex_geom) (ex_raster ex_grid [[3, 5]]) None [1] 0 0 False False
          (Some [(''elevation'', 7 :: nat)]) [''elevation''] None False)
     = Inr [(''elevation'', Numeric [3, 5]), (''coverage_fraction'', Numeric [1, 1])] \<and>
   snd (CPP_exact_extract (ex_env ex_geom) (ex_raster ex_grid [[3, 5]])
          (Some (ex_raster ex_grid [[1, 2]])) [1] 0 0 False False
          (Some [(''elevation'', 7 :: nat)]) [''value''] (Some [''elevation'']) False)
     = Inr [(''elevation'', PassThrough 7), (''value'', Numeric [3, 5]),
            (''elevation.1'', Numeric [1, 2]), (''coverage_fraction'', Numeric [1, 1])]"
  by (simp add: ex_extract ex_setting)

end
